theory Spec2Isabelle
  imports Complex_Main
begin

section \<open>JavaScript values\<close>

text \<open>
  A JavaScript string is a sequence of UTF-16 code units, and \<^verbatim>\<open>length\<close> counts code
  units. A string is modelled as the list of its code units; \<open>str\<close> embeds an ASCII
  literal of the source.
\<close>

type_synonym jsstring = "nat list"

definition str :: "string \<Rightarrow> jsstring" where
  "str s = map of_char s"

text \<open>
  \<^verbatim>\<open>String.prototype.trim\<close> removes the code points of WhiteSpace and LineTerminator
  from both ends: TAB, LF, VT, FF, CR, SP, NBSP, U+1680, U+2000 to U+200A, U+2028, U+2029,
  U+202F, U+205F, U+3000 and U+FEFF. All of them are single code units.
\<close>

definition isWhiteSpace :: "nat \<Rightarrow> bool" where
  "isWhiteSpace c \<longleftrightarrow>
     c = 9 \<or> c = 10 \<or> c = 11 \<or> c = 12 \<or> c = 13 \<or> c = 32 \<or> c = 160 \<or> c = 5760 \<or>
     (8192 \<le> c \<and> c \<le> 8202) \<or> c = 8232 \<or> c = 8233 \<or> c = 8239 \<or> c = 8287 \<or>
     c = 12288 \<or> c = 65279"

definition trim :: "jsstring \<Rightarrow> jsstring" where
  "trim s = rev (dropWhile isWhiteSpace (rev (dropWhile isWhiteSpace s)))"

text \<open>
  The values that \<^verbatim>\<open>JSON.parse\<close> yields, and \<^verbatim>\<open>undefined\<close> for what a property read
  yields where there is no such property. A number is carried as the value of its JSON
  literal: the handlers below only store numbers, test them for truthiness or hand them
  to the engine's number-to-string conversion, which is a parameter (\<open>num\<close>). The
  literal reads as the nearest double, which is zero up to \<open>1 / 2 ^ 1075\<close>, half of the
  least positive double.
\<close>

datatype json =
    JUndefined
  | JNull
  | JBool bool
  | JNum rat
  | JStr jsstring
  | JArr "json list"
  | JObj "(jsstring \<times> json) list"

text \<open>ToBoolean: what \<^verbatim>\<open>if (v)\<close>, \<^verbatim>\<open>!v\<close>, \<^verbatim>\<open>v && w\<close> and \<^verbatim>\<open>v || w\<close> test.\<close>

fun truthy :: "json \<Rightarrow> bool" where
  "truthy JUndefined = False"
| "truthy JNull = False"
| "truthy (JBool b) = b"
| "truthy (JNum q) = (1 / 2 ^ 1075 < \<bar>q\<bar>)"
| "truthy (JStr s) = (s \<noteq> [])"
| "truthy (JArr xs) = True"
| "truthy (JObj kv) = True"

definition js_or :: "json \<Rightarrow> json \<Rightarrow> json" where
  "js_or a b = (if truthy a then a else b)"

text \<open>
  A property read \<^verbatim>\<open>v.k\<close> for the keys of the wire format (none of which is a
  built-in property such as \<^verbatim>\<open>length\<close>), on a value other than \<^verbatim>\<open>null\<close> and
  \<^verbatim>\<open>undefined\<close> (on those the read throws a TypeError, which each handler models where
  it can happen). A JSON text that repeats a key keeps the last binding.
\<close>

fun field :: "string \<Rightarrow> json \<Rightarrow> json" where
  "field k (JObj kv) = (case map_of (rev kv) (str k) of Some v \<Rightarrow> v | None \<Rightarrow> JUndefined)"
| "field k v = JUndefined"

fun join :: "jsstring list \<Rightarrow> jsstring" where
  "join [] = []"
| "join [x] = x"
| "join (x # y # ys) = x @ [44] @ join (y # ys)"

text \<open>What a handler can throw.\<close>

datatype js_error = TypeError

text \<open>
  The conversion of a value to a primitive, which ToString and ToNumber apply first (in
  a template literal, in \<^verbatim>\<open>v * 100\<close>, in \<^verbatim>\<open>v > 0\<close>, in \<^verbatim>\<open>'' + v\<close>). A parsed object
  inherits \<^verbatim>\<open>toString\<close> and \<^verbatim>\<open>valueOf\<close> from \<^verbatim>\<open>Object.prototype\<close>; the inherited
  \<^verbatim>\<open>valueOf\<close> returns the object itself, so the result is that of \<^verbatim>\<open>toString\<close>. Where
  the object has a key \<^verbatim>\<open>toString\<close> of its own, its value is not callable and the
  conversion throws a TypeError. The \<^verbatim>\<open>toString\<close> of an array joins the conversions of
  its elements.
\<close>

fun convertible :: "json \<Rightarrow> bool" where
  "convertible (JObj kv) = (str ''toString'' \<notin> set (map fst kv))"
| "convertible (JArr xs) = list_all convertible xs"
| "convertible v = True"

text \<open>The string of a value that converts.\<close>

fun toText :: "(rat \<Rightarrow> jsstring) \<Rightarrow> json \<Rightarrow> jsstring" where
  "toText num JUndefined = str ''undefined''"
| "toText num JNull = str ''null''"
| "toText num (JBool b) = (if b then str ''true'' else str ''false'')"
| "toText num (JNum n) = num n"
| "toText num (JStr s) = s"
| "toText num (JArr xs) =
     join (map (\<lambda>x. if x = JUndefined \<or> x = JNull then [] else toText num x) xs)"
| "toText num (JObj kv) = str ''[object Object]''"

text \<open>ToString, as a template literal \<^verbatim>\<open>`${v}`\<close> applies it.\<close>

definition toStr :: "(rat \<Rightarrow> jsstring) \<Rightarrow> json \<Rightarrow> js_error + jsstring" where
  "toStr num v = (if convertible v then Inr (toText num v) else Inl TypeError)"

text \<open>
  What \<^verbatim>\<open>await fetch(...)\<close> followed by \<^verbatim>\<open>await response.json()\<close> gives a handler:
  either one of the two rejects (with \<^verbatim>\<open>error.message\<close>), or there is a response
  with its \<^verbatim>\<open>ok\<close> flag and its parsed body.
\<close>

datatype fetch_outcome =
    Rejected jsstring
  | Resolved bool json

section \<open>The admin panel (AdminPanel.js)\<close>

record AdminPanel =
  videoUrl :: jsstring
  currentSession :: json
  isLoading :: bool
  message :: jsstring
  isProcessing_admin :: bool
  adminKey :: jsstring
  isAuthenticated :: bool

definition AdminPanel_init :: AdminPanel where
  "AdminPanel_init =
     \<lparr>videoUrl = [], currentSession = JNull, isLoading = False, message = [],
      isProcessing_admin = False, adminKey = [], isAuthenticated = False\<rparr>"

text \<open>
  \<^verbatim>\<open>handleAuth\<close>; the parameter is \<^verbatim>\<open>process.env.REACT_APP_ADMIN_KEY\<close>, \<open>None\<close> when the
  variable is not set (\<^verbatim>\<open>undefined\<close>, which no string is strictly equal to).
\<close>

definition handleAuth :: "jsstring option \<Rightarrow> AdminPanel \<Rightarrow> AdminPanel" where
  "handleAuth REACT_APP_ADMIN_KEY st =
     (if adminKey st = str ''admin123'' \<or> Some (adminKey st) = REACT_APP_ADMIN_KEY
      then st\<lparr>isAuthenticated := True, message := []\<rparr>
      else st\<lparr>message := str ''Invalid admin key''\<rparr>)"

text \<open>
  The body of the POST to \<^verbatim>\<open>/youtube/set-video\<close>, and what the handler takes from
  outside: the backend's answer to a request, the message of a TypeError (of the read of
  a property, by its name, on \<^verbatim>\<open>null\<close>, or of a value that does not convert to a
  primitive), \<^verbatim>\<open>new Date().toISOString()\<close> and the engine's number-to-string conversion.
\<close>

datatype type_error_cause =
    PropertyOfNull string
  | NotPrimitive

record set_video_request =
  video_url :: jsstring
  admin_user :: jsstring

record admin_env =
  fetch_set_video :: "set_video_request \<Rightarrow> fetch_outcome"
  typeErrorMessage :: "type_error_cause \<Rightarrow> jsstring"
  nowISOString :: jsstring
  numberToString :: "rat \<Rightarrow> jsstring"

text \<open>
  \<^verbatim>\<open>handleSetVideo\<close>, run to the end of its \<^verbatim>\<open>finally\<close> block. On a body that is
  \<^verbatim>\<open>null\<close>, \<^verbatim>\<open>response.ok && data.success\<close> reads \<^verbatim>\<open>data.success\<close> when the response
  is ok and \<^verbatim>\<open>data.error\<close> is read when it is not; either read throws. The template
  literal of a message throws when its value does not convert; in the success branch it
  is evaluated before the session and the input are set. Whatever the \<^verbatim>\<open>try\<close> block
  throws ends in the \<^verbatim>\<open>catch\<close> block and its message. The result is the
  component state and the requests sent. \<open>crossMark\<close> is U+274C and
  \<open>checkMarkButton\<close> is U+2705, the two emoji of the messages.
\<close>

definition crossMark :: jsstring where
  "crossMark = [10060]"

definition checkMarkButton :: jsstring where
  "checkMarkButton = [9989]"

definition handleSetVideo :: "admin_env \<Rightarrow> AdminPanel \<Rightarrow> AdminPanel \<times> set_video_request list" where
  "handleSetVideo env st =
     (if trim (videoUrl st) = []
      then (st\<lparr>message := str ''Please enter a valid YouTube URL''\<rparr>, [])
      else
        let req = \<lparr>video_url = videoUrl st, admin_user = str ''admin''\<rparr>;
            st1 = st\<lparr>isLoading := True, message := []\<rparr>;
            st2 =
              (case fetch_set_video env req of
                 Rejected msg \<Rightarrow> st1\<lparr>message := crossMark @ str '' Network error: '' @ msg\<rparr>
               | Resolved ok data \<Rightarrow>
                   if data = JNull \<or> data = JUndefined
                   then st1\<lparr>message :=
                          crossMark @ str '' Network error: '' @
                          typeErrorMessage env
                            (PropertyOfNull (if ok then ''success'' else ''error''))\<rparr>
                   else if ok \<and> truthy (field ''success'' data)
                   then
                     (case toStr (numberToString env) (field ''title'' data) of
                        Inl e \<Rightarrow>
                          st1\<lparr>message :=
                                crossMark @ str '' Network error: '' @
                                typeErrorMessage env NotPrimitive\<rparr>
                      | Inr titleText \<Rightarrow>
                          st1\<lparr>message :=
                                checkMarkButton @ str '' Video set successfully: '' @ titleText,
                              currentSession :=
                                JObj [(str ''video_id'', field ''video_id'' data),
                                      (str ''title'', field ''title'' data),
                                      (str ''duration'', field ''duration'' data),
                                      (str ''is_live'', field ''is_live'' data),
                                      (str ''created_at'', JStr (nowISOString env))],
                              videoUrl := []\<rparr>)
                   else
                     (case toStr (numberToString env)
                             (js_or (field ''error'' data) (JStr (str ''Failed to set video''))) of
                        Inl e \<Rightarrow>
                          st1\<lparr>message :=
                                crossMark @ str '' Network error: '' @
                                typeErrorMessage env NotPrimitive\<rparr>
                      | Inr errorText \<Rightarrow>
                          st1\<lparr>message := crossMark @ str '' Error: '' @ errorText\<rparr>))
        in (st2\<lparr>isLoading := False\<rparr>, [req]))"

section \<open>Timers\<close>

text \<open>
  \<^verbatim>\<open>setTimeout\<close> and \<^verbatim>\<open>clearTimeout\<close> over a virtual clock in milliseconds. A
  pending timer has the id that \<^verbatim>\<open>setTimeout\<close> returned, the time at which it is due
  and its callback. Browser timer ids are positive, so the first id is 1. \<open>fired\<close> is the
  history of the ids whose callbacks have run.
\<close>

record 'cb timer =
  tid :: nat
  due :: nat
  callback :: 'cb

record 'cb eventloop =
  now :: nat
  nextId :: nat
  pending :: "'cb timer list"
  fired :: "nat list"

definition eventloop_init :: "'cb eventloop" where
  "eventloop_init = \<lparr>now = 0, nextId = 1, pending = [], fired = []\<rparr>"

definition setTimeout :: "'cb \<Rightarrow> nat \<Rightarrow> 'cb eventloop \<Rightarrow> nat \<times> 'cb eventloop" where
  "setTimeout cb delay lp =
     (nextId lp,
      lp\<lparr>nextId := nextId lp + 1,
         pending := pending lp @ [\<lparr>tid = nextId lp, due = now lp + delay, callback = cb\<rparr>]\<rparr>)"

definition clearTimeout :: "nat \<Rightarrow> 'cb eventloop \<Rightarrow> 'cb eventloop" where
  "clearTimeout i lp = lp\<lparr>pending := filter (\<lambda>t. tid t \<noteq> i) (pending lp)\<rparr>"

text \<open>
  When \<open>d\<close> milliseconds pass, the timers due by then run, earliest first and in the
  order of their creation where two are due together. No callback of the components below
  sets a timer, so the timers that run are among those pending at the start.
\<close>

definition dueTimers :: "nat \<Rightarrow> 'cb eventloop \<Rightarrow> 'cb timer list" where
  "dueTimers d lp = sort_key due (filter (\<lambda>t. due t \<le> now lp + d) (pending lp))"

definition advance :: "nat \<Rightarrow> 'cb eventloop \<Rightarrow> 'cb eventloop" where
  "advance d lp =
     lp\<lparr>now := now lp + d,
        pending := filter (\<lambda>t. \<not> due t \<le> now lp + d) (pending lp),
        fired := fired lp @ map tid (dueTimers d lp)\<rparr>"

section \<open>The YouTube Live view (YouTubeLive.js)\<close>

text \<open>
  What the spread \<^verbatim>\<open>[...v]\<close> iterates: the elements of an array, the code points of a
  string (a surrogate pair is one element); any other value is not iterable.
\<close>

definition isHighSurrogate :: "nat \<Rightarrow> bool" where
  "isHighSurrogate c \<longleftrightarrow> 55296 \<le> c \<and> c \<le> 56319"

definition isLowSurrogate :: "nat \<Rightarrow> bool" where
  "isLowSurrogate c \<longleftrightarrow> 56320 \<le> c \<and> c \<le> 57343"

fun codePoints :: "jsstring \<Rightarrow> jsstring list" where
  "codePoints [] = []"
| "codePoints [c] = [[c]]"
| "codePoints (c # d # cs) =
     (if isHighSurrogate c \<and> isLowSurrogate d then [c, d] # codePoints cs
      else [c] # codePoints (d # cs))"

fun spread :: "json \<Rightarrow> js_error + json list" where
  "spread (JArr xs) = Inr xs"
| "spread (JStr s) = Inr (map JStr (codePoints s))"
| "spread v = Inl TypeError"

datatype request =
    WsSend nat json
  | HttpPost jsstring json

datatype yt_callback = ConnectWebSocket_yt

text \<open>
  The component's state and refs, then its surroundings: the timers, the number of
  sockets constructed (a socket is named by its index), whether the \<^verbatim>\<open>WebSocket\<close>
  constructor throws, and what has been sent.
\<close>

record YouTubeLive =
  videoSession :: json
  factChecks_yt :: json
  transcriptSegments :: json
  isConnected :: bool
  error_yt :: json
  loading :: bool
  wsRef_yt :: "nat option"
  reconnectTimeoutRef :: "nat option"
  loop_yt :: "yt_callback eventloop"
  sockets_yt :: nat
  webSocketThrows_yt :: bool
  outbox_yt :: "request list"

definition YouTubeLive_init :: YouTubeLive where
  "YouTubeLive_init =
     \<lparr>videoSession = JNull, factChecks_yt = JArr [], transcriptSegments = JArr [],
      isConnected = False, error_yt = JStr [], loading = True, wsRef_yt = None,
      reconnectTimeoutRef = None, loop_yt = eventloop_init, sockets_yt = 0,
      webSocketThrows_yt = False, outbox_yt = []\<rparr>"

text \<open>\<^verbatim>\<open>connectWebSocket\<close> of the view: the body of its \<^verbatim>\<open>try\<close>, or its \<^verbatim>\<open>catch\<close>.\<close>

definition connectWebSocket_yt :: "YouTubeLive \<Rightarrow> YouTubeLive" where
  "connectWebSocket_yt st =
     (if webSocketThrows_yt st
      then st\<lparr>error_yt := JStr (str ''Failed to connect to live updates'')\<rparr>
      else st\<lparr>sockets_yt := sockets_yt st + 1, wsRef_yt := Some (sockets_yt st)\<rparr>)"

definition ws_onopen_yt :: "nat \<Rightarrow> YouTubeLive \<Rightarrow> YouTubeLive" where
  "ws_onopen_yt ws st =
     st\<lparr>isConnected := True, error_yt := JStr [],
        outbox_yt := outbox_yt st @
          [WsSend ws (JObj [(str ''type'', JStr (str ''get_current_session''))])]\<rparr>"

definition ws_onclose_yt :: "YouTubeLive \<Rightarrow> YouTubeLive" where
  "ws_onclose_yt st =
     (let (i, lp) = setTimeout ConnectWebSocket_yt 3000 (loop_yt st)
      in st\<lparr>isConnected := False, reconnectTimeoutRef := Some i, loop_yt := lp\<rparr>)"

fun fire_yt :: "yt_callback timer \<Rightarrow> YouTubeLive \<Rightarrow> YouTubeLive" where
  "fire_yt t st = (case callback t of ConnectWebSocket_yt \<Rightarrow> connectWebSocket_yt st)"

definition elapse_yt :: "nat \<Rightarrow> YouTubeLive \<Rightarrow> YouTubeLive" where
  "elapse_yt d st =
     fold fire_yt (dueTimers d (loop_yt st)) (st\<lparr>loop_yt := advance d (loop_yt st)\<rparr>)"

text \<open>
  \<^verbatim>\<open>handleWebSocketMessage\<close>, with the state updaters applied. Reading
  \<^verbatim>\<open>message.type\<close> of \<^verbatim>\<open>null\<close> throws; so does the updater \<^verbatim>\<open>prev => [...prev, x]\<close>
  when the list state holds a value that is not iterable.
\<close>

definition handleWebSocketMessage :: "json \<Rightarrow> YouTubeLive \<Rightarrow> js_error + YouTubeLive" where
  "handleWebSocketMessage msg st =
     (if msg = JNull \<or> msg = JUndefined then Inl TypeError
      else if field ''type'' msg = JStr (str ''current_session'') then
        Inr ((if truthy (field ''data'' msg)
              then st\<lparr>videoSession := field ''data'' msg,
                      factChecks_yt :=
                        js_or (field ''fact_checks'' (field ''data'' msg)) (JArr []),
                      transcriptSegments :=
                        js_or (field ''transcript_segments'' (field ''data'' msg)) (JArr [])\<rparr>
              else st)\<lparr>loading := False\<rparr>)
      else if field ''type'' msg = JStr (str ''new_fact_check'') then
        (case spread (factChecks_yt st) of
           Inl e \<Rightarrow> Inl e
         | Inr prev \<Rightarrow> Inr (st\<lparr>factChecks_yt := JArr (prev @ [field ''data'' msg])\<rparr>))
      else if field ''type'' msg = JStr (str ''new_transcript'') then
        (case spread (transcriptSegments st) of
           Inl e \<Rightarrow> Inl e
         | Inr prev \<Rightarrow> Inr (st\<lparr>transcriptSegments := JArr (prev @ [field ''data'' msg])\<rparr>))
      else if field ''type'' msg = JStr (str ''video_changed'') then
        Inr (st\<lparr>videoSession := field ''data'' msg,
                factChecks_yt := JArr [],
                transcriptSegments := JArr []\<rparr>)
      else if field ''type'' msg = JStr (str ''error'') then
        Inr (st\<lparr>error_yt := field ''message'' msg\<rparr>)
      else Inr st)"

section \<open>Verdict rendering (App.js and YouTubeLive.js)\<close>

text \<open>
  \<^verbatim>\<open>toLowerCase\<close> on the letters A to Z. Outside ASCII the engine maps by its Unicode
  tables, which are not modelled: the function is exact on strings of ASCII code units.
  Of the code units outside ASCII only the Kelvin sign is mapped to an ASCII letter (k),
  which is in none of the strings that the verdict functions compare with.
\<close>

definition toLowerCase :: "jsstring \<Rightarrow> jsstring" where
  "toLowerCase s = map (\<lambda>c. if 65 \<le> c \<and> c \<le> 90 then c + 32 else c) s"

text \<open>
  The two functions of \<^verbatim>\<open>TruthSeeker\<close> and their copies in \<^verbatim>\<open>YouTubeLive\<close>. The
  argument is a field of a parsed response: calling \<^verbatim>\<open>toLowerCase\<close> on anything but a
  string throws a TypeError. The icons are U+2713, U+2717, U+26A0 and the question mark.
\<close>

fun getVerdictColor :: "json \<Rightarrow> js_error + jsstring" where
  "getVerdictColor (JStr verdict) =
     Inr (if toLowerCase verdict = str ''true''
          then str ''text-green-400 bg-green-900/20 border-green-500/30''
          else if toLowerCase verdict = str ''false''
          then str ''text-red-400 bg-red-900/20 border-red-500/30''
          else if toLowerCase verdict = str ''partially true''
          then str ''text-yellow-400 bg-yellow-900/20 border-yellow-500/30''
          else str ''text-gray-400 bg-gray-900/20 border-gray-500/30'')"
| "getVerdictColor v = Inl TypeError"

fun getVerdictIcon :: "json \<Rightarrow> js_error + jsstring" where
  "getVerdictIcon (JStr verdict) =
     Inr (if toLowerCase verdict = str ''true'' then [10003]
          else if toLowerCase verdict = str ''false'' then [10007]
          else if toLowerCase verdict = str ''partially true'' then [9888]
          else str ''?'')"
| "getVerdictIcon v = Inl TypeError"

fun getVerdictColor_yt :: "json \<Rightarrow> js_error + jsstring" where
  "getVerdictColor_yt (JStr verdict) =
     Inr (if toLowerCase verdict = str ''true''
          then str ''text-green-400 bg-green-900/20 border-green-500/30''
          else if toLowerCase verdict = str ''false''
          then str ''text-red-400 bg-red-900/20 border-red-500/30''
          else if toLowerCase verdict = str ''partially true''
          then str ''text-yellow-400 bg-yellow-900/20 border-yellow-500/30''
          else str ''text-gray-400 bg-gray-900/20 border-gray-500/30'')"
| "getVerdictColor_yt v = Inl TypeError"

fun getVerdictIcon_yt :: "json \<Rightarrow> js_error + jsstring" where
  "getVerdictIcon_yt (JStr verdict) =
     Inr (if toLowerCase verdict = str ''true'' then [10003]
          else if toLowerCase verdict = str ''false'' then [10007]
          else if toLowerCase verdict = str ''partially true'' then [9888]
          else str ''?'')"
| "getVerdictIcon_yt v = Inl TypeError"

section \<open>The solo view (TruthSeeker in App.js)\<close>

text \<open>
  A speech recognition event: \<open>transcript\<close> is \<^verbatim>\<open>results[i][0].transcript\<close> and
  \<open>isFinal\<close> is \<^verbatim>\<open>results[i].isFinal\<close>.
\<close>

record speech_result =
  transcript :: jsstring
  isFinal :: bool

record SpeechRecognitionEvent =
  resultIndex :: nat
  results :: "speech_result list"

text \<open>
  The callbacks that the view hands to \<^verbatim>\<open>setTimeout\<close>: \<^verbatim>\<open>connectWebSocket\<close>, the
  restart closure of \<^verbatim>\<open>recognition.onend\<close> (over its recognition object) and the
  debounced closure of \<^verbatim>\<open>processSentenceForFactCheck\<close> (over the sentence).
\<close>

datatype ts_callback =
    ConnectWebSocket
  | RestartRecognition nat
  | SendForFactCheck jsstring

text \<open>
  The component's state and refs, then its surroundings: whether the browser has the
  speech recognition API, the recognition objects constructed (an object is named by its
  index, and the entry is the value of \<^verbatim>\<open>isListening\<close> that its handlers captured), the
  timers, the number of sockets constructed (a socket is named by its index), whether the
  \<^verbatim>\<open>WebSocket\<close> constructor throws, the sockets whose \<^verbatim>\<open>readyState\<close> is \<^verbatim>\<open>OPEN\<close>, what
  has been sent (over a socket or by HTTP) and the recognition objects that are started
  (from \<^verbatim>\<open>start()\<close> until their end event).
\<close>

record TruthSeeker =
  isListening :: bool
  transcription :: jsstring
  currentSentence :: jsstring
  factChecks :: "json list"
  isProcessing :: bool
  sessionId :: jsstring
  error :: jsstring
  apiConfigured :: json
  recognitionRef :: "nat option"
  wsRef :: "nat option"
  processTimeoutRef :: "nat option"
  speechSupported :: bool
  recognitions :: "bool list"
  loop :: "ts_callback eventloop"
  sockets :: nat
  webSocketThrows :: bool
  openSockets :: "nat list"
  outbox :: "request list"
  started :: "nat list"

definition TruthSeeker_init :: "jsstring \<Rightarrow> TruthSeeker" where
  "TruthSeeker_init sid =
     \<lparr>isListening = False, transcription = [], currentSentence = [], factChecks = [],
      isProcessing = False, sessionId = sid, error = [], apiConfigured = JBool False,
      recognitionRef = None, wsRef = None, processTimeoutRef = None, speechSupported = True,
      recognitions = [], loop = eventloop_init, sockets = 0,
      webSocketThrows = False, openSockets = [], outbox = [], started = []\<rparr>"

text \<open>
  The effect that initialises the speech recognition. Its dependency is \<^verbatim>\<open>isListening\<close>:
  it runs at mount and after every render in which \<^verbatim>\<open>isListening\<close> has changed. Each run
  constructs a recognition object whose handlers are closures of that render, so that the
  \<^verbatim>\<open>isListening\<close> they read is the value of that render; and it stores the object in
  \<^verbatim>\<open>recognitionRef\<close>. The cleanup of the previous run calls \<^verbatim>\<open>stop()\<close> on the previous
  object, which changes nothing here: an object that is started stays so until its end
  event.
\<close>

definition recognitionEffect :: "TruthSeeker \<Rightarrow> TruthSeeker" where
  "recognitionEffect st =
     (if \<not> speechSupported st
      then st\<lparr>error := str
             ''Speech recognition not supported in this browser. Please use Chrome, Safari, or Edge.''\<rparr>
      else st\<lparr>recognitions := recognitions st @ [isListening st],
              recognitionRef := Some (length (recognitions st))\<rparr>)"

text \<open>
  \<^verbatim>\<open>setIsListening(v)\<close> with the render that follows: React renders again when the value
  is new, and then the effect runs.
\<close>

definition setIsListening :: "bool \<Rightarrow> TruthSeeker \<Rightarrow> TruthSeeker" where
  "setIsListening v st =
     (if v = isListening st then st else recognitionEffect (st\<lparr>isListening := v\<rparr>))"

text \<open>
  \<^verbatim>\<open>processSentenceForFactCheck\<close>: the test \<^verbatim>\<open>if (processTimeoutRef.current)\<close> is on a
  timer id or \<^verbatim>\<open>null\<close>.
\<close>

definition processSentenceForFactCheck :: "jsstring \<Rightarrow> TruthSeeker \<Rightarrow> TruthSeeker" where
  "processSentenceForFactCheck sentence st =
     (let lp = (case processTimeoutRef st of
                  None \<Rightarrow> loop st
                | Some i \<Rightarrow> if i = 0 then loop st else clearTimeout i (loop st));
          (i, lp') = setTimeout (SendForFactCheck sentence) 1000 lp
      in st\<lparr>isProcessing := True, processTimeoutRef := Some i, loop := lp'\<rparr>)"

text \<open>
  The debounced closure, up to its first \<^verbatim>\<open>await\<close>: over an open socket the sentence is
  sent and the \<^verbatim>\<open>finally\<close> block runs at once; otherwise the HTTP request is issued and
  the rest of the closure (\<open>factCheckResponse\<close>) runs when the answer is there.
\<close>

definition sendOverSocket :: "nat \<Rightarrow> jsstring \<Rightarrow> TruthSeeker \<Rightarrow> TruthSeeker" where
  "sendOverSocket ws sentence st =
     st\<lparr>outbox := outbox st @
          [WsSend ws
             (JObj [(str ''type'', JStr (str ''transcription_update'')),
                    (str ''text'', JStr sentence),
                    (str ''is_final'', JBool True)])],
        isProcessing := False\<rparr>"

definition postFactCheck :: "jsstring \<Rightarrow> TruthSeeker \<Rightarrow> TruthSeeker" where
  "postFactCheck sentence st =
     st\<lparr>outbox := outbox st @
          [HttpPost (str ''/fact-check'')
             (JObj [(str ''statement'', JStr sentence),
                    (str ''session_id'', JStr (sessionId st))])]\<rparr>"

definition sendForFactCheck :: "jsstring \<Rightarrow> TruthSeeker \<Rightarrow> TruthSeeker" where
  "sendForFactCheck sentence st =
     (case wsRef st of
        None \<Rightarrow> postFactCheck sentence st
      | Some ws \<Rightarrow>
          if ws \<in> set (openSockets st) then sendOverSocket ws sentence st
          else postFactCheck sentence st)"

definition factCheckResponse :: "fetch_outcome \<Rightarrow> TruthSeeker \<Rightarrow> TruthSeeker" where
  "factCheckResponse r st =
     (case r of
        Rejected msg \<Rightarrow> st\<lparr>isProcessing := False\<rparr>
      | Resolved ok result \<Rightarrow>
          if ok then st\<lparr>factChecks := result # factChecks st, isProcessing := False\<rparr>
          else st\<lparr>isProcessing := False\<rparr>)"

text \<open>
  The loop of \<^verbatim>\<open>recognition.onresult\<close> over the results from \<^verbatim>\<open>resultIndex\<close> on; the
  accumulator is \<^verbatim>\<open>(interimTranscript, finalTranscript)\<close>.
\<close>

fun transcripts :: "speech_result list \<Rightarrow> jsstring \<times> jsstring \<Rightarrow> jsstring \<times> jsstring" where
  "transcripts [] acc = acc"
| "transcripts (r # rs) (interimTranscript, finalTranscript) =
     (if isFinal r
      then transcripts rs (interimTranscript, finalTranscript @ transcript r)
      else transcripts rs (interimTranscript @ transcript r, finalTranscript))"

definition finalTranscript :: "SpeechRecognitionEvent \<Rightarrow> jsstring" where
  "finalTranscript event = snd (transcripts (drop (resultIndex event) (results event)) ([], []))"

definition interimTranscript :: "SpeechRecognitionEvent \<Rightarrow> jsstring" where
  "interimTranscript event = fst (transcripts (drop (resultIndex event) (results event)) ([], []))"

definition recognition_onresult :: "SpeechRecognitionEvent \<Rightarrow> TruthSeeker \<Rightarrow> TruthSeeker" where
  "recognition_onresult event st =
     (if finalTranscript event \<noteq> []
      then
        let st1 = st\<lparr>transcription := transcription st @ finalTranscript event @ str '' '',
                     currentSentence := []\<rparr>
        in if length (trim (finalTranscript event)) > 10
           then processSentenceForFactCheck (trim (finalTranscript event)) st1
           else st1
      else st\<lparr>currentSentence := interimTranscript event\<rparr>)"

definition recognition_onerror :: "jsstring \<Rightarrow> TruthSeeker \<Rightarrow> TruthSeeker" where
  "recognition_onerror e st =
     setIsListening False
       (st\<lparr>error :=
            (if e = str ''not-allowed''
             then str ''Microphone access denied. Please allow microphone access and refresh the page.''
             else if e = str ''no-speech''
             then str ''No speech detected. Please try speaking again.''
             else str ''Speech recognition error: '' @ e)\<rparr>)"

text \<open>
  \<^verbatim>\<open>recognition.onend\<close> is a closure of the effect that created the recognition object:
  \<open>listening\<close> is the value of \<^verbatim>\<open>isListening\<close> it captured and \<open>r\<close> names its recognition
  object. \<^verbatim>\<open>recognition.start()\<close> throws an InvalidStateError on an object that is
  already started. \<open>restartRecognition\<close> is the closure that the handler hands to
  \<^verbatim>\<open>setTimeout\<close>.
\<close>

definition recognition_onend :: "bool \<Rightarrow> nat \<Rightarrow> TruthSeeker \<Rightarrow> TruthSeeker" where
  "recognition_onend listening r st =
     (if listening
      then st\<lparr>loop := snd (setTimeout (RestartRecognition r) 100 (loop st))\<rparr>
      else st)"

definition restartRecognition :: "nat \<Rightarrow> TruthSeeker \<Rightarrow> TruthSeeker" where
  "restartRecognition r st =
     (if r \<in> set (started st)
      then setIsListening False st
      else st\<lparr>started := r # started st\<rparr>)"

text \<open>
  \<^verbatim>\<open>toggleListening\<close>, the click on the microphone button. While listening it calls
  \<^verbatim>\<open>stop()\<close> on the current object; otherwise it calls \<^verbatim>\<open>start()\<close> on it, which throws
  when the object is started already.
\<close>

definition toggleListening :: "TruthSeeker \<Rightarrow> TruthSeeker" where
  "toggleListening st =
     (case recognitionRef st of
        None \<Rightarrow> st
      | Some r \<Rightarrow>
          if isListening st then setIsListening False st
          else if r \<in> set (started st)
          then st\<lparr>error := str ''Error starting speech recognition. Please try again.''\<rparr>
          else (setIsListening True (st\<lparr>started := r # started st\<rparr>))\<lparr>error := []\<rparr>)"

text \<open>
  \<^verbatim>\<open>connectWebSocket\<close> and the handlers it installs on the socket. On a message that
  is \<^verbatim>\<open>null\<close>, \<^verbatim>\<open>ws.onmessage\<close> throws at \<^verbatim>\<open>message.type\<close> and the state stays as
  it was, which is also what the model gives.
\<close>

definition connectWebSocket :: "TruthSeeker \<Rightarrow> TruthSeeker" where
  "connectWebSocket st =
     (if webSocketThrows st then st
      else st\<lparr>sockets := sockets st + 1, wsRef := Some (sockets st)\<rparr>)"

definition ws_onmessage :: "json \<Rightarrow> TruthSeeker \<Rightarrow> TruthSeeker" where
  "ws_onmessage msg st =
     (if field ''type'' msg = JStr (str ''fact_check_result'')
      then st\<lparr>factChecks := field ''data'' msg # factChecks st, isProcessing := False\<rparr>
      else st)"

definition ws_onclose :: "TruthSeeker \<Rightarrow> TruthSeeker" where
  "ws_onclose st = st\<lparr>loop := snd (setTimeout ConnectWebSocket 3000 (loop st))\<rparr>"

text \<open>
  \<^verbatim>\<open>checkHealth\<close>, given what the fetch of \<^verbatim>\<open>/health\<close> and \<^verbatim>\<open>response.json()\<close> came to.
  A rejection, and the TypeError of reading a property of \<^verbatim>\<open>null\<close>, end in the
  \<^verbatim>\<open>catch\<close> block, which only logs. \<open>demoBanner\<close> is the condition under which the
  header renders the banner "Demo Mode - Add Perplexity API Key".
\<close>

definition checkHealth :: "fetch_outcome \<Rightarrow> TruthSeeker \<Rightarrow> TruthSeeker" where
  "checkHealth r st =
     (case r of
        Rejected msg \<Rightarrow> st
      | Resolved ok data \<Rightarrow>
          if data = JNull \<or> data = JUndefined then st
          else st\<lparr>apiConfigured := field ''perplexity_api_configured'' data\<rparr>)"

definition demoBanner :: "TruthSeeker \<Rightarrow> bool" where
  "demoBanner st \<longleftrightarrow> \<not> truthy (apiConfigured st)"

definition clearAll :: "TruthSeeker \<Rightarrow> TruthSeeker" where
  "clearAll st = st\<lparr>transcription := [], currentSentence := [], factChecks := [], error := []\<rparr>"

text \<open>Running a due timer's callback, and the passing of \<open>d\<close> milliseconds.\<close>

fun fire :: "ts_callback timer \<Rightarrow> TruthSeeker \<Rightarrow> TruthSeeker" where
  "fire t st =
     (case callback t of
        ConnectWebSocket \<Rightarrow> connectWebSocket st
      | RestartRecognition r \<Rightarrow> restartRecognition r st
      | SendForFactCheck sentence \<Rightarrow> sendForFactCheck sentence st)"

definition elapse :: "nat \<Rightarrow> TruthSeeker \<Rightarrow> TruthSeeker" where
  "elapse d st = fold fire (dueTimers d (loop st)) (st\<lparr>loop := advance d (loop st)\<rparr>)"

text \<open>
  What can happen to the view, one event at a time: a handler runs (after the change of
  the surroundings that it reports: a recognition object has ended, a socket has left
  or reached \<^verbatim>\<open>OPEN\<close>, on which \<^verbatim>\<open>onopen\<close> only logs), time passes, or the \<^verbatim>\<open>WebSocket\<close>
  constructor starts or stops throwing. The end event comes to an object that is
  started, and it runs the handler of that object, with the \<^verbatim>\<open>isListening\<close> that the
  handler captured.
\<close>

datatype ts_event =
    OnResult SpeechRecognitionEvent
  | OnError jsstring
  | OnEnd nat
  | ToggleListening
  | WsOpen nat
  | WsClose nat
  | WsMessage json
  | HealthResponse fetch_outcome
  | FactCheckResponse fetch_outcome
  | ClearAll
  | Elapse nat
  | WebSocketThrows bool

fun step :: "ts_event \<Rightarrow> TruthSeeker \<Rightarrow> TruthSeeker" where
  "step (OnResult event) st = recognition_onresult event st"
| "step (OnError e) st = recognition_onerror e st"
| "step (OnEnd r) st =
     (if r \<in> set (started st) \<and> r < length (recognitions st)
      then recognition_onend (recognitions st ! r) r
             (st\<lparr>started := removeAll r (started st)\<rparr>)
      else st)"
| "step ToggleListening st = toggleListening st"
| "step (WsOpen ws) st = st\<lparr>openSockets := ws # openSockets st\<rparr>"
| "step (WsClose ws) st = ws_onclose (st\<lparr>openSockets := removeAll ws (openSockets st)\<rparr>)"
| "step (WsMessage msg) st = ws_onmessage msg st"
| "step (HealthResponse r) st = checkHealth r st"
| "step (FactCheckResponse r) st = factCheckResponse r st"
| "step ClearAll st = clearAll st"
| "step (Elapse d) st = elapse d st"
| "step (WebSocketThrows b) st = st\<lparr>webSocketThrows := b\<rparr>"

definition run :: "ts_event list \<Rightarrow> TruthSeeker \<Rightarrow> TruthSeeker" where
  "run es st = fold step es st"

text \<open>
  The view after its mount effects: the recognition object of the first render is there
  and \<^verbatim>\<open>connectWebSocket()\<close> has been called once.
\<close>

definition mounted :: "jsstring \<Rightarrow> TruthSeeker" where
  "mounted sid = connectWebSocket (recognitionEffect (TruthSeeker_init sid))"

text \<open>Two backends for the examples: one refuses every video, one accepts every video.\<close>

definition env_refused :: admin_env where
  "env_refused =
     \<lparr>fetch_set_video = (\<lambda>req. Resolved False
         (JObj [(str ''success'', JBool False), (str ''error'', JStr (str ''Invalid YouTube URL''))])),
      typeErrorMessage =
        (\<lambda>c. case c of
               PropertyOfNull k \<Rightarrow> str ''Cannot read properties of null''
             | NotPrimitive \<Rightarrow> str ''Cannot convert object to primitive value''),
      nowISOString = str ''2025-01-01T00:00:00.000Z'',
      numberToString = (\<lambda>n. [])\<rparr>"

definition env_accepted :: admin_env where
  "env_accepted =
     \<lparr>fetch_set_video = (\<lambda>req. Resolved True
         (JObj [(str ''success'', JBool True), (str ''video_id'', JStr (str ''dQw4w9WgXcQ'')),
                (str ''title'', JStr (str ''Debate'')), (str ''duration'', JNum 212),
                (str ''is_live'', JBool False)])),
      typeErrorMessage =
        (\<lambda>c. case c of
               PropertyOfNull k \<Rightarrow> str ''Cannot read properties of null''
             | NotPrimitive \<Rightarrow> str ''Cannot convert object to primitive value''),
      nowISOString = str ''2025-01-01T00:00:00.000Z'',
      numberToString = (\<lambda>n. [])\<rparr>"

text \<open>A backend that accepts every video and whose title does not convert to a string.\<close>

definition env_unprintable :: admin_env where
  "env_unprintable =
     \<lparr>fetch_set_video = (\<lambda>req. Resolved True
         (JObj [(str ''success'', JBool True), (str ''video_id'', JStr (str ''dQw4w9WgXcQ'')),
                (str ''title'', JObj [(str ''toString'', JNum 1)])])),
      typeErrorMessage =
        (\<lambda>c. case c of
               PropertyOfNull k \<Rightarrow> str ''Cannot read properties of null''
             | NotPrimitive \<Rightarrow> str ''Cannot convert object to primitive value''),
      nowISOString = str ''2025-01-01T00:00:00.000Z'',
      numberToString = (\<lambda>n. [])\<rparr>"

text \<open>A view with a session, one fact-check and one transcript segment; a message.\<close>

definition yt_example :: YouTubeLive where
  "yt_example =
     YouTubeLive_init\<lparr>videoSession := JObj [(str ''video_id'', JStr (str ''v1''))],
                      factChecks_yt := JArr [JStr (str ''check 1'')],
                      transcriptSegments := JArr [JStr (str ''segment 1'')]\<rparr>"

definition ws_msg :: "string \<Rightarrow> json \<Rightarrow> json" where
  "ws_msg t d = JObj [(str ''type'', JStr (str t)), (str ''data'', d)]"

text \<open>
  The specification's side of the verdict rendering: the enum of verdicts, the icon and
  the style classes that each is to get, and equality of two strings up to the case of
  the letters A to Z.
\<close>

definition verdict_enum :: "jsstring list" where
  "verdict_enum = [str ''True'', str ''False'', str ''Partially True'', str ''Unverified'']"

definition spec_icon :: "jsstring \<Rightarrow> jsstring" where
  "spec_icon e =
     (if e = str ''True'' then [10003]
      else if e = str ''False'' then [10007]
      else if e = str ''Partially True'' then [9888]
      else str ''?'')"

definition spec_color :: "jsstring \<Rightarrow> jsstring" where
  "spec_color e =
     (if e = str ''True'' then str ''text-green-400 bg-green-900/20 border-green-500/30''
      else if e = str ''False'' then str ''text-red-400 bg-red-900/20 border-red-500/30''
      else if e = str ''Partially True'' then str ''text-yellow-400 bg-yellow-900/20 border-yellow-500/30''
      else str ''text-gray-400 bg-gray-900/20 border-gray-500/30'')"

definition sameLetter :: "nat \<Rightarrow> nat \<Rightarrow> bool" where
  "sameLetter c d \<longleftrightarrow>
     c = d \<or> (65 \<le> c \<and> c \<le> 90 \<and> d = c + 32) \<or> (65 \<le> d \<and> d \<le> 90 \<and> c = d + 32)"

definition equalIgnoringCase :: "jsstring \<Rightarrow> jsstring \<Rightarrow> bool" where
  "equalIgnoringCase v w \<longleftrightarrow> list_all2 sameLetter v w"

text \<open>The body of a health response, as the backend's test log shows it.\<close>

definition health :: "bool \<Rightarrow> json" where
  "health configured =
     JObj [(str ''status'', JStr (str ''healthy'')), (str ''service'', JStr (str ''TruthSeeker'')),
           (str ''perplexity_api_configured'', JBool configured)]"

text \<open>
  The timer that a close handler is to set on the event loop \<open>lp\<close>: the next id, due 3000
  milliseconds from now. The YouTube Live view after its mount effect.
\<close>

definition reconnectTimer :: "'a eventloop \<Rightarrow> 'a \<Rightarrow> 'a timer" where
  "reconnectTimer lp cb = \<lparr>tid = nextId lp, due = now lp + 3000, callback = cb\<rparr>"

definition mounted_yt :: YouTubeLive where
  "mounted_yt = connectWebSocket_yt YouTubeLive_init"

text \<open>
  The timer that \<^verbatim>\<open>recognition.onend\<close> is to set for the recognition object \<open>r\<close>: the
  next id, due 100 milliseconds from now.
\<close>

definition restartTimer :: "ts_callback eventloop \<Rightarrow> nat \<Rightarrow> ts_callback timer" where
  "restartTimer lp r = \<lparr>tid = nextId lp, due = now lp + 100, callback = RestartRecognition r\<rparr>"

text \<open>
  What every state of the view satisfies: the handlers of a started recognition object
  captured \<^verbatim>\<open>isListening\<close> as false, the handlers of the object in \<^verbatim>\<open>recognitionRef\<close>
  (there is one only where the browser has the API) captured the present
  \<^verbatim>\<open>isListening\<close>, and no restart timer is pending.
\<close>

fun isRestart :: "ts_callback timer \<Rightarrow> bool" where
  "isRestart t = (case callback t of RestartRecognition r \<Rightarrow> True | _ \<Rightarrow> False)"

definition closure_inv :: "TruthSeeker \<Rightarrow> bool" where
  "closure_inv st \<longleftrightarrow>
     (\<forall>r \<in> set (started st). r < length (recognitions st) \<and> \<not> recognitions st ! r) \<and>
     (\<forall>r. recognitionRef st = Some r \<longrightarrow>
        speechSupported st \<and> r < length (recognitions st) \<and>
        recognitions st ! r = isListening st) \<and>
     (\<forall>t \<in> set (pending (loop st)). \<not> isRestart t)"

text \<open>A recognition event with one final result.\<close>

definition heard :: "string \<Rightarrow> SpeechRecognitionEvent" where
  "heard s = \<lparr>resultIndex = 0, results = [\<lparr>transcript = str s, isFinal = True\<rparr>]\<rparr>"

text \<open>
  The debounce of the fact-check. \<open>debounceTimers\<close> are the pending timers of
  \<^verbatim>\<open>processSentenceForFactCheck\<close>; \<open>statementOf\<close> reads the statement out of a request
  sent over the socket or by HTTP.
\<close>

fun isDebounce :: "ts_callback timer \<Rightarrow> bool" where
  "isDebounce t = (case callback t of SendForFactCheck s \<Rightarrow> True | _ \<Rightarrow> False)"

definition debounceTimers :: "TruthSeeker \<Rightarrow> ts_callback timer list" where
  "debounceTimers st = filter isDebounce (pending (loop st))"

fun statementOf :: "request \<Rightarrow> json" where
  "statementOf (WsSend ws m) = field ''text'' m"
| "statementOf (HttpPost path body) = field ''statement'' body"

text \<open>
  A stretch of events in which \<^verbatim>\<open>processSentenceForFactCheck\<close> is not called and less
  than \<open>budget\<close> milliseconds pass.
\<close>

fun quiet :: "nat \<Rightarrow> ts_event list \<Rightarrow> bool" where
  "quiet budget [] = True"
| "quiet budget (Elapse d # es) = (d < budget \<and> quiet (budget - d) es)"
| "quiet budget (OnResult event # es) =
     (length (trim (finalTranscript event)) \<le> 10 \<and> quiet budget es)"
| "quiet budget (e # es) = quiet budget es"

text \<open>
  What every state of the view satisfies: timer ids are positive, below the next id and
  distinct, and a pending debounce timer is the one that \<^verbatim>\<open>processTimeoutRef\<close> holds.
\<close>

definition debounce_inv :: "TruthSeeker \<Rightarrow> bool" where
  "debounce_inv st \<longleftrightarrow>
     0 < nextId (loop st) \<and>
     (\<forall>t \<in> set (pending (loop st)). tid t < nextId (loop st)) \<and>
     (\<forall>t \<in> set (pending (loop st)). isDebounce t \<longrightarrow> processTimeoutRef st = Some (tid t)) \<and>
     (\<forall>i. processTimeoutRef st = Some i \<longrightarrow> 0 < i) \<and>
     (\<forall>i \<in> set (fired (loop st)). i < nextId (loop st)) \<and>
     distinct (map tid (pending (loop st)))"

text \<open>
  A timer id that was handed out, is not pending and has not run; and the state between
  a call of \<^verbatim>\<open>processSentenceForFactCheck\<close> and the end of its window: its timer \<open>i\<close>
  is the one in \<^verbatim>\<open>processTimeoutRef\<close>, has not run and is not due within \<open>budget\<close>
  milliseconds, and nothing has been sent since (\<open>out\<close>).
\<close>

definition dead :: "nat \<Rightarrow> TruthSeeker \<Rightarrow> bool" where
  "dead i st \<longleftrightarrow>
     i < nextId (loop st) \<and> i \<notin> tid ` set (pending (loop st)) \<and> i \<notin> set (fired (loop st))"

definition armed :: "nat \<Rightarrow> nat \<Rightarrow> request list \<Rightarrow> TruthSeeker \<Rightarrow> bool" where
  "armed i budget out st \<longleftrightarrow>
     processTimeoutRef st = Some i \<and> 0 < i \<and> i < nextId (loop st) \<and>
     i \<notin> set (fired (loop st)) \<and>
     (\<forall>t \<in> set (pending (loop st)). isDebounce t \<longrightarrow> tid t = i) \<and>
     (\<forall>t \<in> set (pending (loop st)). tid t = i \<longrightarrow> now (loop st) + budget \<le> due t) \<and>
     outbox st = out"

text \<open>Two sentences said to a freshly mounted view, with the events \<open>mid\<close> between them.\<close>

definition said :: "ts_event list \<Rightarrow> jsstring \<Rightarrow> jsstring \<Rightarrow> TruthSeeker" where
  "said mid a b =
     processSentenceForFactCheck b
       (run mid (processSentenceForFactCheck a (run [] (mounted []))))"

section \<open>The fact-check endpoint and its consumer\<close>

text \<open>
  Modelled from the spec: the handler of \<^verbatim>\<open>/api/fact-check\<close> is backend code that is not
  among the sources. The spec says of it: the handler forwards the statement to an
  external fact-check provider; when no API key is configured, and when the provider
  fails, it falls back to a static mock table keyed by substring matches on the
  statement; the result is a FactCheckResult (statement text, verdict of the enum True,
  False, Partially True, Unverified, confidence score, explanation text, list of title and
  url sources, creation time). The spec says nothing of the answer to an empty statement,
  which is a parameter here. The keys of the response are those that the client reads.
\<close>

datatype Verdict = VerdictTrue | VerdictFalse | PartiallyTrue | Unverified

fun verdictName :: "Verdict \<Rightarrow> jsstring" where
  "verdictName VerdictTrue = str ''True''"
| "verdictName VerdictFalse = str ''False''"
| "verdictName PartiallyTrue = str ''Partially True''"
| "verdictName Unverified = str ''Unverified''"

record source =
  title :: jsstring
  url :: jsstring

record assessment =
  verdict :: Verdict
  confidence_score :: rat
  explanation :: jsstring
  sources :: "source list"

record fact_check_backend =
  api_key :: "jsstring option"
  provider :: "jsstring \<Rightarrow> jsstring \<Rightarrow> assessment option"
  mock_table :: "(jsstring \<times> assessment) list"
  mock_default :: assessment
  answer_to_empty :: json
  creation_time :: jsstring

fun startsWith :: "jsstring \<Rightarrow> jsstring \<Rightarrow> bool" where
  "startsWith s [] = True"
| "startsWith [] (k # ks) = False"
| "startsWith (c # cs) (k # ks) = (c = k \<and> startsWith cs ks)"

fun hasSubstring :: "jsstring \<Rightarrow> jsstring \<Rightarrow> bool" where
  "hasSubstring [] key = (key = [])"
| "hasSubstring (c # cs) key = (startsWith (c # cs) key \<or> hasSubstring cs key)"

text \<open>
  Modelled from the spec: the mock table, keyed by substring matches on the statement
  (the first entry whose key occurs in the statement, or else the default).
\<close>

fun mock_lookup :: "(jsstring \<times> assessment) list \<Rightarrow> assessment \<Rightarrow> jsstring \<Rightarrow> assessment" where
  "mock_lookup [] dflt statement = dflt"
| "mock_lookup ((key, a) # table) dflt statement =
     (if hasSubstring statement key then a else mock_lookup table dflt statement)"

text \<open>
  Modelled from the spec: the provider is asked when an API key is configured; without a
  key, and when the provider fails, the mock table answers.
\<close>

definition assess :: "fact_check_backend \<Rightarrow> jsstring \<Rightarrow> assessment" where
  "assess be statement =
     (case api_key be of
        None \<Rightarrow> mock_lookup (mock_table be) (mock_default be) statement
      | Some k \<Rightarrow>
          (case provider be k statement of
             None \<Rightarrow> mock_lookup (mock_table be) (mock_default be) statement
           | Some a \<Rightarrow> a))"

text \<open>
  Modelled from the spec: the response of the endpoint, the FactCheckResult as JSON under
  the keys that the client reads.
\<close>

definition sourceJson :: "source \<Rightarrow> json" where
  "sourceJson s = JObj [(str ''title'', JStr (title s)), (str ''url'', JStr (url s))]"

definition fact_check_endpoint :: "fact_check_backend \<Rightarrow> jsstring \<Rightarrow> json" where
  "fact_check_endpoint be statement =
     (if statement = [] then answer_to_empty be
      else
        let a = assess be statement
        in JObj [(str ''statement'', JStr statement),
                 (str ''verdict'', JStr (verdictName (verdict a))),
                 (str ''confidence_score'', JNum (confidence_score a)),
                 (str ''explanation'', JStr (explanation a)),
                 (str ''sources'', JArr (map sourceJson (sources a))),
                 (str ''created_at'', JStr (creation_time be))])"

text \<open>The specification's side: what a well-formed verdict object is.\<close>

fun isStr :: "json \<Rightarrow> bool" where
  "isStr (JStr s) = True"
| "isStr v = False"

fun isNum :: "json \<Rightarrow> bool" where
  "isNum (JNum q) = True"
| "isNum v = False"

definition isSource :: "json \<Rightarrow> bool" where
  "isSource v \<longleftrightarrow> isStr (field ''title'' v) \<and> isStr (field ''url'' v)"

definition wellFormedVerdictObject :: "json \<Rightarrow> bool" where
  "wellFormedVerdictObject r \<longleftrightarrow>
     isStr (field ''statement'' r) \<and>
     (case field ''verdict'' r of JStr v \<Rightarrow> v \<in> set verdict_enum | _ \<Rightarrow> False) \<and>
     isNum (field ''confidence_score'' r) \<and>
     isStr (field ''explanation'' r) \<and>
     (case field ''sources'' r of JArr xs \<Rightarrow> list_all isSource xs | _ \<Rightarrow> False)"

text \<open>
  The card that \<^verbatim>\<open>TruthSeeker\<close> renders for one element \<^verbatim>\<open>check\<close> of \<^verbatim>\<open>factChecks\<close>.
  A child \<^verbatim>\<open>{v}\<close> of an element is text for a string or a number, nothing for a
  boolean, \<^verbatim>\<open>null\<close> or \<^verbatim>\<open>undefined\<close>, its elements for an array, and React throws on an
  object. \<open>confidenceShown\<close> is the operand of \<^verbatim>\<open>Math.round(check.confidence_score * 100)\<close>.
\<close>

fun validChild :: "json \<Rightarrow> bool" where
  "validChild (JObj kv) = False"
| "validChild (JArr xs) = list_all validChild xs"
| "validChild v = True"

datatype sources_view = NoSources | StrayZero | Links "(json \<times> json) list"

record factCheckCard =
  colorShown :: jsstring
  iconShown :: jsstring
  verdictShown :: json
  confidenceShown :: json
  statementShown :: json
  explanationShown :: json
  sourcesShown :: sources_view

text \<open>
  \<^verbatim>\<open>v > 0\<close>, or \<open>None\<close> where the comparison throws: the operand is converted to a
  primitive and then to a number. An object that converts gives the string
  \<^verbatim>\<open>[object Object]\<close>, which is not a number. The number of a string, and of the string
  of an array, is the engine's, and a parameter here (\<open>positive\<close>).
\<close>

fun gt0 :: "(json \<Rightarrow> bool) \<Rightarrow> json \<Rightarrow> bool option" where
  "gt0 positive (JNum q) = Some (1 / 2 ^ 1075 < q)"
| "gt0 positive (JBool b) = Some b"
| "gt0 positive JNull = Some False"
| "gt0 positive JUndefined = Some False"
| "gt0 positive (JStr s) = Some (positive (JStr s))"
| "gt0 positive (JArr xs) =
     (if convertible (JArr xs) then Some (positive (JArr xs)) else None)"
| "gt0 positive (JObj kv) = (if convertible (JObj kv) then Some False else None)"

text \<open>
  The links of \<^verbatim>\<open>check.sources.slice(0, 2).map(...)\<close>: \<^verbatim>\<open>(source.url, source.title)\<close>,
  or \<open>None\<close> where the callback throws: reading a property of a source that is
  \<^verbatim>\<open>null\<close> throws.
\<close>

fun links :: "json list \<Rightarrow> (json \<times> json) list option" where
  "links [] = Some []"
| "links (source # rest) =
     (if source = JNull \<or> source = JUndefined then None
      else (case links rest of
              None \<Rightarrow> None
            | Some ls \<Rightarrow> Some ((field ''url'' source, field ''title'' source) # ls)))"

text \<open>
  The block under the guard \<^verbatim>\<open>check.sources && check.sources.length > 0 && (...)\<close>, by
  the value of \<^verbatim>\<open>check.sources\<close>, or \<open>None\<close> where its evaluation throws. React prints
  a falsy number that the guard yields. The length of an object is its key \<^verbatim>\<open>length\<close>.
  A string or an object that passes the guard has no \<^verbatim>\<open>slice(...).map\<close>, which throws.
\<close>

fun sourcesBlock :: "(json \<Rightarrow> bool) \<Rightarrow> json \<Rightarrow> sources_view option" where
  "sourcesBlock positive JUndefined = Some NoSources"
| "sourcesBlock positive JNull = Some NoSources"
| "sourcesBlock positive (JBool b) = Some NoSources"
| "sourcesBlock positive (JNum q) = (if truthy (JNum q) then Some NoSources else Some StrayZero)"
| "sourcesBlock positive (JStr s) = (if s = [] then Some NoSources else None)"
| "sourcesBlock positive (JArr xs) =
     (if xs = [] then Some NoSources
      else (case links (take 2 xs) of None \<Rightarrow> None | Some ls \<Rightarrow> Some (Links ls)))"
| "sourcesBlock positive (JObj kv) =
     (case gt0 positive (field ''length'' (JObj kv)) of
        None \<Rightarrow> None
      | Some longer \<Rightarrow> if longer then None else Some NoSources)"

text \<open>
  What React then does with a link it is given: the title is a child, and the url is the
  \<^verbatim>\<open>href\<close> attribute, which React sets to \<^verbatim>\<open>'' + url\<close> (no attribute for a boolean,
  \<^verbatim>\<open>null\<close> or \<^verbatim>\<open>undefined\<close>), so that a url that does not convert throws.
\<close>

fun validBlock :: "sources_view \<Rightarrow> bool" where
  "validBlock (Links ls) = list_all (\<lambda>(u, t). validChild t \<and> convertible u) ls"
| "validBlock b = True"

text \<open>
  The render of one card, or \<open>None\<close> where it throws. While the JSX is evaluated,
  \<^verbatim>\<open>check.verdict\<close> is read (a TypeError on \<^verbatim>\<open>null\<close>), the verdict functions are
  called, \<^verbatim>\<open>check.confidence_score * 100\<close> converts its operand, and the block of
  sources is evaluated; React then throws on a child that is an object and on an
  attribute that does not convert.
\<close>

definition renderFactCheck :: "(json \<Rightarrow> bool) \<Rightarrow> json \<Rightarrow> factCheckCard option" where
  "renderFactCheck positive check =
     (if check = JNull \<or> check = JUndefined then None
      else
        case getVerdictColor (field ''verdict'' check) of
          Inl e \<Rightarrow> None
        | Inr color \<Rightarrow>
        (case getVerdictIcon (field ''verdict'' check) of
          Inl e \<Rightarrow> None
        | Inr icon \<Rightarrow>
        if \<not> convertible (field ''confidence_score'' check) then None
        else
        (case sourcesBlock positive (field ''sources'' check) of
          None \<Rightarrow> None
        | Some block \<Rightarrow>
            if validChild (field ''statement'' check) \<and>
               validChild (field ''explanation'' check) \<and> validBlock block
            then Some \<lparr>colorShown = color, iconShown = icon,
                       verdictShown = field ''verdict'' check,
                       confidenceShown = field ''confidence_score'' check,
                       statementShown = field ''statement'' check,
                       explanationShown = field ''explanation'' check,
                       sourcesShown = block\<rparr>
            else None)))"

text \<open>
  A backend without an API key and with one entry in its mock table; a result that has no
  \<^verbatim>\<open>sources\<close>.
\<close>

definition example_backend :: fact_check_backend where
  "example_backend =
     \<lparr>api_key = None,
      provider = (\<lambda>k statement. None),
      mock_table =
        [(str ''Earth is round'',
          \<lparr>verdict = VerdictTrue, confidence_score = 9 / 10,
           explanation = str ''The Earth is an oblate spheroid.'',
           sources = [\<lparr>title = str ''NASA'', url = str ''https://nasa.gov''\<rparr>]\<rparr>)],
      mock_default =
        \<lparr>verdict = Unverified, confidence_score = 1 / 2,
         explanation = str ''Could not be verified.'', sources = []\<rparr>,
      answer_to_empty = JObj [(str ''detail'', JStr (str ''empty statement''))],
      creation_time = str ''2025-01-01T00:00:00''\<rparr>"

definition unsourced_result :: json where
  "unsourced_result =
     JObj [(str ''statement'', JStr (str ''The Earth is round'')),
           (str ''verdict'', JStr (str ''True'')),
           (str ''confidence_score'', JNum (9 / 10)),
           (str ''explanation'', JStr (str ''The Earth is an oblate spheroid.''))]"

text \<open>A result whose confidence score does not convert to a number.\<close>

definition unrated_result :: json where
  "unrated_result =
     JObj [(str ''statement'', JStr (str ''The Earth is round'')),
           (str ''verdict'', JStr (str ''True'')),
           (str ''confidence_score'', JObj [(str ''toString'', JNum 1)]),
           (str ''explanation'', JStr (str ''The Earth is an oblate spheroid.'')),
           (str ''sources'', JArr [])]"

section \<open>Properties of the admin panel\<close>

text \<open>
  C10: from the login form (not yet authenticated), \<^verbatim>\<open>handleAuth\<close> grants access if and
  only if the entered key is the hardcoded \<^verbatim>\<open>admin123\<close> or the value of
  \<^verbatim>\<open>REACT_APP_ADMIN_KEY\<close>; for every other key the panel stays unauthenticated and shows
  "Invalid admin key"; the hardcoded key is accepted whatever the variable is.
\<close>

theorem handleAuth_grants_iff:
  assumes "\<not> isAuthenticated st"
  shows "(isAuthenticated (handleAuth env st) \<longleftrightarrow>
            adminKey st = str ''admin123'' \<or> env = Some (adminKey st)) \<and>
         (adminKey st \<noteq> str ''admin123'' \<and> env \<noteq> Some (adminKey st) \<longrightarrow>
            \<not> isAuthenticated (handleAuth env st) \<and>
            message (handleAuth env st) = str ''Invalid admin key'') \<and>
         isAuthenticated (handleAuth env (st\<lparr>adminKey := str ''admin123''\<rparr>))"
  using assms by (auto simp: handleAuth_def)

theorem handleAuth_grants_iff_witness:
  "\<not> isAuthenticated AdminPanel_init \<and>
   \<not> isAuthenticated
       (handleAuth (Some (str ''s3cret'')) (AdminPanel_init\<lparr>adminKey := str ''admin124''\<rparr>)) \<and>
   message (handleAuth (Some (str ''s3cret'')) (AdminPanel_init\<lparr>adminKey := str ''admin124''\<rparr>))
     = str ''Invalid admin key'' \<and>
   isAuthenticated
     (handleAuth (Some (str ''s3cret'')) (AdminPanel_init\<lparr>adminKey := str ''s3cret''\<rparr>)) \<and>
   isAuthenticated (handleAuth None (AdminPanel_init\<lparr>adminKey := str ''admin123''\<rparr>))"
  using handleAuth_grants_iff
          [of "AdminPanel_init\<lparr>adminKey := str ''admin124''\<rparr>" "Some (str ''s3cret'')"]
        handleAuth_grants_iff
          [of "AdminPanel_init\<lparr>adminKey := str ''s3cret''\<rparr>" "Some (str ''s3cret'')"]
        handleAuth_grants_iff
          [of "AdminPanel_init\<lparr>adminKey := str ''admin123''\<rparr>" None]
  by (simp add: AdminPanel_init_def str_def)

text \<open>
  C6: \<^verbatim>\<open>handleSetVideo\<close> surfaces errors and leaves the session alone on failure. With a
  URL that is empty after trimming, nothing is sent and the prompt is shown. With a
  response whose body is an object and that is not ok or whose \<^verbatim>\<open>success\<close> is falsy, the
  message is the cross mark, " Error: " and the response's \<^verbatim>\<open>error\<close> as a string (the
  default text when there is none), so it contains the error text; and session and URL
  input stay as they were. With an ok response whose \<^verbatim>\<open>success\<close> is truthy and whose
  title converts to a string, the session becomes the returned video fields and the input
  is cleared. In every other outcome (a rejected fetch, a body that is not JSON or is
  \<^verbatim>\<open>null\<close>, a title or an error that does not convert to a string) a message starting
  with the cross mark is shown and session and input are unchanged; so session or input
  change only after an ok response with truthy \<^verbatim>\<open>success\<close>.
\<close>

theorem handleSetVideo_outcomes:
  fixes env st
  defines "req \<equiv> \<lparr>video_url = videoUrl st, admin_user = str ''admin''\<rparr>"
  defines "st' \<equiv> fst (handleSetVideo env st)"
  shows
  "(trim (videoUrl st) = [] \<longrightarrow>
      handleSetVideo env st = (st\<lparr>message := str ''Please enter a valid YouTube URL''\<rparr>, [])) \<and>
   (trim (videoUrl st) \<noteq> [] \<longrightarrow> snd (handleSetVideo env st) = [req]) \<and>
   (\<forall>ok data.
      trim (videoUrl st) \<noteq> [] \<and> fetch_set_video env req = Resolved ok data \<and>
      data \<noteq> JNull \<and> data \<noteq> JUndefined \<and> (\<not> ok \<or> \<not> truthy (field ''success'' data)) \<longrightarrow>
        (convertible (field ''error'' data) \<longrightarrow>
           message st' =
             crossMark @ str '' Error: '' @
             toText (numberToString env)
               (js_or (field ''error'' data) (JStr (str ''Failed to set video'')))) \<and>
        (\<forall>e. field ''error'' data = JStr e \<longrightarrow>
           (\<exists>post. message st' = crossMark @ str '' Error: '' @ e @ post)) \<and>
        (\<exists>shown. message st' = crossMark @ shown) \<and>
        currentSession st' = currentSession st \<and> videoUrl st' = videoUrl st) \<and>
   (\<forall>data.
      trim (videoUrl st) \<noteq> [] \<and> fetch_set_video env req = Resolved True data \<and>
      truthy (field ''success'' data) \<and> convertible (field ''title'' data) \<longrightarrow>
        currentSession st' =
          JObj [(str ''video_id'', field ''video_id'' data),
                (str ''title'', field ''title'' data),
                (str ''duration'', field ''duration'' data),
                (str ''is_live'', field ''is_live'' data),
                (str ''created_at'', JStr (nowISOString env))] \<and>
        videoUrl st' = []) \<and>
   (trim (videoUrl st) \<noteq> [] \<and>
    (\<forall>data. fetch_set_video env req = Resolved True data \<longrightarrow>
       \<not> truthy (field ''success'' data) \<or> \<not> convertible (field ''title'' data)) \<longrightarrow>
      (\<exists>shown. message st' = crossMark @ shown) \<and>
      currentSession st' = currentSession st \<and> videoUrl st' = videoUrl st) \<and>
   (currentSession st' \<noteq> currentSession st \<or> videoUrl st' \<noteq> videoUrl st \<longrightarrow>
      trim (videoUrl st) \<noteq> [] \<and>
      (\<exists>data. fetch_set_video env req = Resolved True data \<and> truthy (field ''success'' data)))"
  unfolding st'_def req_def
  by (auto simp: handleSetVideo_def Let_def js_or_def toStr_def split: fetch_outcome.splits)

theorem handleSetVideo_outcomes_witness:
  "handleSetVideo env_refused (AdminPanel_init\<lparr>videoUrl := str ''  ''\<rparr>) =
     (AdminPanel_init\<lparr>videoUrl := str ''  '',
                      message := str ''Please enter a valid YouTube URL''\<rparr>, []) \<and>
   message (fst (handleSetVideo env_refused (AdminPanel_init\<lparr>videoUrl := str ''abc''\<rparr>))) =
     crossMark @ str '' Error: Invalid YouTube URL'' \<and>
   currentSession (fst (handleSetVideo env_refused (AdminPanel_init\<lparr>videoUrl := str ''abc''\<rparr>))) =
     JNull \<and>
   videoUrl (fst (handleSetVideo env_refused (AdminPanel_init\<lparr>videoUrl := str ''abc''\<rparr>))) =
     str ''abc'' \<and>
   currentSession (fst (handleSetVideo env_accepted (AdminPanel_init\<lparr>videoUrl := str ''abc''\<rparr>))) =
     JObj [(str ''video_id'', JStr (str ''dQw4w9WgXcQ'')),
           (str ''title'', JStr (str ''Debate'')),
           (str ''duration'', JNum 212),
           (str ''is_live'', JBool False),
           (str ''created_at'', JStr (str ''2025-01-01T00:00:00.000Z''))] \<and>
   videoUrl (fst (handleSetVideo env_accepted (AdminPanel_init\<lparr>videoUrl := str ''abc''\<rparr>))) = [] \<and>
   message (fst (handleSetVideo env_unprintable (AdminPanel_init\<lparr>videoUrl := str ''abc''\<rparr>))) =
     crossMark @ str '' Network error: Cannot convert object to primitive value'' \<and>
   currentSession (fst (handleSetVideo env_unprintable (AdminPanel_init\<lparr>videoUrl := str ''abc''\<rparr>))) =
     JNull \<and>
   videoUrl (fst (handleSetVideo env_unprintable (AdminPanel_init\<lparr>videoUrl := str ''abc''\<rparr>))) =
     str ''abc''"
  using handleSetVideo_outcomes
          [where st = "AdminPanel_init\<lparr>videoUrl := str ''  ''\<rparr>" and env = env_refused]
        handleSetVideo_outcomes
          [where st = "AdminPanel_init\<lparr>videoUrl := str ''abc''\<rparr>" and env = env_refused]
        handleSetVideo_outcomes
          [where st = "AdminPanel_init\<lparr>videoUrl := str ''abc''\<rparr>" and env = env_accepted]
  by (simp add: handleSetVideo_def Let_def AdminPanel_init_def env_refused_def env_accepted_def
        env_unprintable_def trim_def isWhiteSpace_def str_def js_or_def toStr_def)

section \<open>Properties of the YouTube Live view\<close>

lemma field_JStr_not_null:
  "field k msg = JStr s \<Longrightarrow> msg \<noteq> JNull \<and> msg \<noteq> JUndefined"
  by (cases msg) auto


text \<open>
  C5: on a message of type \<^verbatim>\<open>video_changed\<close> the view replaces the video session by
  the message's data and empties both the fact-check list and the transcript list; on
  \<^verbatim>\<open>new_fact_check\<close> it appends the data at the end of the fact-check list and on
  \<^verbatim>\<open>new_transcript\<close> at the end of the transcript list, and nothing else changes.
\<close>

theorem handleWebSocketMessage_lists:
  "(field ''type'' msg = JStr (str ''video_changed'') \<longrightarrow>
      handleWebSocketMessage msg st =
        Inr (st\<lparr>videoSession := field ''data'' msg,
                factChecks_yt := JArr [],
                transcriptSegments := JArr []\<rparr>)) \<and>
   (field ''type'' msg = JStr (str ''new_fact_check'') \<and> factChecks_yt st = JArr checks \<longrightarrow>
      handleWebSocketMessage msg st =
        Inr (st\<lparr>factChecks_yt := JArr (checks @ [field ''data'' msg])\<rparr>)) \<and>
   (field ''type'' msg = JStr (str ''new_transcript'') \<and> transcriptSegments st = JArr segments \<longrightarrow>
      handleWebSocketMessage msg st =
        Inr (st\<lparr>transcriptSegments := JArr (segments @ [field ''data'' msg])\<rparr>))"
proof (intro conjI impI)
  assume t: "field ''type'' msg = JStr (str ''video_changed'')"
  from field_JStr_not_null [OF t] t
  show "handleWebSocketMessage msg st =
        Inr (st\<lparr>videoSession := field ''data'' msg, factChecks_yt := JArr [],
                transcriptSegments := JArr []\<rparr>)"
    by (simp add: handleWebSocketMessage_def str_def)
next
  assume a: "field ''type'' msg = JStr (str ''new_fact_check'') \<and> factChecks_yt st = JArr checks"
  then have t: "field ''type'' msg = JStr (str ''new_fact_check'')" by simp
  from field_JStr_not_null [OF t] a
  show "handleWebSocketMessage msg st =
        Inr (st\<lparr>factChecks_yt := JArr (checks @ [field ''data'' msg])\<rparr>)"
    by (simp add: handleWebSocketMessage_def str_def)
next
  assume a: "field ''type'' msg = JStr (str ''new_transcript'') \<and> transcriptSegments st = JArr segments"
  then have t: "field ''type'' msg = JStr (str ''new_transcript'')" by simp
  from field_JStr_not_null [OF t] a
  show "handleWebSocketMessage msg st =
        Inr (st\<lparr>transcriptSegments := JArr (segments @ [field ''data'' msg])\<rparr>)"
    by (simp add: handleWebSocketMessage_def str_def)
qed

theorem handleWebSocketMessage_lists_witness:
  "handleWebSocketMessage (ws_msg ''video_changed'' (JObj [(str ''video_id'', JStr (str ''v2''))])) yt_example =
     Inr (yt_example\<lparr>videoSession := JObj [(str ''video_id'', JStr (str ''v2''))],
                     factChecks_yt := JArr [], transcriptSegments := JArr []\<rparr>) \<and>
   handleWebSocketMessage (ws_msg ''new_fact_check'' (JStr (str ''check 2''))) yt_example =
     Inr (yt_example\<lparr>factChecks_yt := JArr [JStr (str ''check 1''), JStr (str ''check 2'')]\<rparr>) \<and>
   handleWebSocketMessage (ws_msg ''new_transcript'' (JStr (str ''segment 2''))) yt_example =
     Inr (yt_example\<lparr>transcriptSegments := JArr [JStr (str ''segment 1''), JStr (str ''segment 2'')]\<rparr>)"
  using handleWebSocketMessage_lists
          [of "ws_msg ''video_changed'' (JObj [(str ''video_id'', JStr (str ''v2''))])" yt_example]
        handleWebSocketMessage_lists
          [of "ws_msg ''new_fact_check'' (JStr (str ''check 2''))" yt_example "[JStr (str ''check 1'')]"]
        handleWebSocketMessage_lists
          [of "ws_msg ''new_transcript'' (JStr (str ''segment 2''))" yt_example _ "[JStr (str ''segment 1'')]"]
  by (simp add: ws_msg_def yt_example_def YouTubeLive_init_def str_def)

section \<open>Properties of the verdict rendering\<close>

lemma toLowerCase_sameLetter:
  "list_all2 sameLetter v w \<Longrightarrow> toLowerCase v = toLowerCase w"
  unfolding toLowerCase_def
  by (induction rule: list_all2_induct) (auto simp: sameLetter_def)

lemma icon_copy: "getVerdictIcon_yt v = getVerdictIcon v"
  by (cases v) simp_all

lemma color_copy: "getVerdictColor_yt v = getVerdictColor v"
  by (cases v) simp_all

lemma enum_lower:
  "toLowerCase (str ''True'') = str ''true''"
  "toLowerCase (str ''False'') = str ''false''"
  "toLowerCase (str ''Partially True'') = str ''partially true''"
  "toLowerCase (str ''Unverified'') = str ''unverified''"
  by (simp_all add: toLowerCase_def str_def)

lemma sameLetter_toLowerCase:
  "toLowerCase v = toLowerCase w \<Longrightarrow> list_all2 sameLetter v w"
proof (induction v arbitrary: w)
  case Nil
  then show ?case by (simp add: toLowerCase_def)
next
  case (Cons c cs)
  then obtain d ds where w: "w = d # ds"
    by (cases w) (auto simp: toLowerCase_def)
  from Cons.prems w have "toLowerCase cs = toLowerCase ds"
    by (simp add: toLowerCase_def)
  then have "list_all2 sameLetter cs ds" by (rule Cons.IH)
  moreover from Cons.prems w have "sameLetter c d"
    by (auto simp: toLowerCase_def sameLetter_def split: if_splits)
  ultimately show ?case using w by simp
qed

lemma equalIgnoringCase_iff: "equalIgnoringCase v w \<longleftrightarrow> toLowerCase v = toLowerCase w"
  unfolding equalIgnoringCase_def
  using toLowerCase_sameLetter sameLetter_toLowerCase by blast

text \<open>
  C7: a verdict of the enum, in any letter case, gets the icon and the style classes of
  the table: the check mark and green for True, the ballot cross and red for False, the
  warning sign and yellow for Partially True, the question mark and gray for Unverified.
  Every string that is none of the first three up to case gets the question mark and
  gray. The functions of the YouTube Live view are equal to those of the solo view.
\<close>

theorem verdict_rendering:
  "(e \<in> set verdict_enum \<and> equalIgnoringCase v e \<longrightarrow>
      getVerdictIcon (JStr v) = Inr (spec_icon e) \<and>
      getVerdictColor (JStr v) = Inr (spec_color e)) \<and>
   (\<not> equalIgnoringCase v (str ''True'') \<and> \<not> equalIgnoringCase v (str ''False'') \<and>
    \<not> equalIgnoringCase v (str ''Partially True'') \<longrightarrow>
      getVerdictIcon (JStr v) = Inr (str ''?'') \<and>
      getVerdictColor (JStr v) = Inr (str ''text-gray-400 bg-gray-900/20 border-gray-500/30'')) \<and>
   getVerdictIcon_yt x = getVerdictIcon x \<and>
   getVerdictColor_yt x = getVerdictColor x"
proof (intro conjI impI)
  assume a: "e \<in> set verdict_enum \<and> equalIgnoringCase v e"
  then have low: "toLowerCase v = toLowerCase e"
    by (simp add: equalIgnoringCase_iff)
  from a have e: "e = str ''True'' \<or> e = str ''False'' \<or> e = str ''Partially True'' \<or>
      e = str ''Unverified''"
    by (auto simp: verdict_enum_def)
  from e low show "getVerdictIcon (JStr v) = Inr (spec_icon e)"
    by (auto simp: enum_lower) (simp_all add: str_def spec_icon_def)
  from e low show "getVerdictColor (JStr v) = Inr (spec_color e)"
    by (auto simp: enum_lower) (simp_all add: str_def spec_color_def)
next
  assume "\<not> equalIgnoringCase v (str ''True'') \<and> \<not> equalIgnoringCase v (str ''False'') \<and>
    \<not> equalIgnoringCase v (str ''Partially True'')"
  then have n: "toLowerCase v \<noteq> str ''true''" "toLowerCase v \<noteq> str ''false''"
      "toLowerCase v \<noteq> str ''partially true''"
    by (simp_all add: equalIgnoringCase_iff enum_lower)
  from n show "getVerdictIcon (JStr v) = Inr (str ''?'')" by simp
  from n show "getVerdictColor (JStr v) =
      Inr (str ''text-gray-400 bg-gray-900/20 border-gray-500/30'')" by simp
next
  show "getVerdictIcon_yt x = getVerdictIcon x" by (rule icon_copy)
  show "getVerdictColor_yt x = getVerdictColor x" by (rule color_copy)
qed

theorem verdict_rendering_witness:
  "str ''Partially True'' \<in> set verdict_enum \<and>
   equalIgnoringCase (str ''PARTIALLY true'') (str ''Partially True'') \<and>
   getVerdictIcon (JStr (str ''PARTIALLY true'')) = Inr [9888] \<and>
   getVerdictColor_yt (JStr (str ''PARTIALLY true'')) =
     Inr (str ''text-yellow-400 bg-yellow-900/20 border-yellow-500/30'') \<and>
   str ''Unverified'' \<in> set verdict_enum \<and>
   getVerdictIcon (JStr (str ''Unverified'')) = Inr (str ''?'') \<and>
   getVerdictIcon_yt (JStr (str ''True'')) = Inr [10003] \<and>
   getVerdictIcon_yt (JStr (str ''False'')) = Inr [10007]"
proof -
  have a: "str ''Partially True'' \<in> set verdict_enum" "str ''Unverified'' \<in> set verdict_enum"
      "str ''True'' \<in> set verdict_enum" "str ''False'' \<in> set verdict_enum"
    by (simp_all add: verdict_enum_def)
  have b: "equalIgnoringCase (str ''PARTIALLY true'') (str ''Partially True'')"
      "equalIgnoringCase (str ''Unverified'') (str ''Unverified'')"
      "equalIgnoringCase (str ''True'') (str ''True'')"
      "equalIgnoringCase (str ''False'') (str ''False'')"
    by (simp_all add: equalIgnoringCase_def sameLetter_def str_def)
  from a b
    verdict_rendering [of "str ''Partially True''" "str ''PARTIALLY true''" "JStr (str ''PARTIALLY true'')"]
    verdict_rendering [of "str ''Unverified''" "str ''Unverified''" "JStr (str ''Unverified'')"]
    verdict_rendering [of "str ''True''" "str ''True''" "JStr (str ''True'')"]
    verdict_rendering [of "str ''False''" "str ''False''" "JStr (str ''False'')"]
  show ?thesis
    by (simp add: spec_icon_def spec_color_def str_def)
qed

section \<open>Properties of the solo view\<close>

text \<open>
  C4: after a fetch of \<^verbatim>\<open>/api/health\<close> that yields a body, \<^verbatim>\<open>apiConfigured\<close> is the
  body's \<^verbatim>\<open>perplexity_api_configured\<close>, and the demo banner is rendered exactly when
  that value is falsy; for a boolean flag, exactly when the flag is false.
\<close>

theorem checkHealth_banner:
  "(data \<noteq> JNull \<and> data \<noteq> JUndefined \<longrightarrow>
      apiConfigured (checkHealth (Resolved ok data) st) = field ''perplexity_api_configured'' data \<and>
      (demoBanner (checkHealth (Resolved ok data) st) \<longleftrightarrow>
         \<not> truthy (field ''perplexity_api_configured'' data))) \<and>
   (field ''perplexity_api_configured'' data = JBool flag \<longrightarrow>
      apiConfigured (checkHealth (Resolved ok data) st) = JBool flag \<and>
      (demoBanner (checkHealth (Resolved ok data) st) \<longleftrightarrow> flag = False))"
proof (intro conjI impI)
  assume "data \<noteq> JNull \<and> data \<noteq> JUndefined"
  then show "apiConfigured (checkHealth (Resolved ok data) st) = field ''perplexity_api_configured'' data"
    and "demoBanner (checkHealth (Resolved ok data) st) \<longleftrightarrow>
         \<not> truthy (field ''perplexity_api_configured'' data)"
    by (simp_all add: checkHealth_def demoBanner_def)
next
  assume f: "field ''perplexity_api_configured'' data = JBool flag"
  then have "data \<noteq> JNull \<and> data \<noteq> JUndefined" by (cases data) auto
  with f show "apiConfigured (checkHealth (Resolved ok data) st) = JBool flag"
    and "demoBanner (checkHealth (Resolved ok data) st) \<longleftrightarrow> flag = False"
    by (simp_all add: checkHealth_def demoBanner_def)
qed

theorem checkHealth_banner_witness:
  "apiConfigured (checkHealth (Resolved True (health True)) (TruthSeeker_init [])) = JBool True \<and>
   \<not> demoBanner (checkHealth (Resolved True (health True)) (TruthSeeker_init [])) \<and>
   apiConfigured (checkHealth (Resolved True (health False)) (TruthSeeker_init [])) = JBool False \<and>
   demoBanner (checkHealth (Resolved True (health False)) (TruthSeeker_init []))"
  using checkHealth_banner [of "health True" True "TruthSeeker_init []" True]
        checkHealth_banner [of "health False" True "TruthSeeker_init []" False]
  by (simp add: health_def str_def)

section \<open>Timers: a timer set now runs when its delay has passed\<close>

lemma insort_key_snoc:
  "f y \<le> f x \<Longrightarrow> insort_key f y (zs @ [x]) = insort_key f y zs @ [x]"
  by (induction zs) auto

lemma sort_key_snoc:
  "\<forall>y\<in>set xs. f y \<le> f x \<Longrightarrow> sort_key f (xs @ [x]) = sort_key f xs @ [x]"
  by (induction xs) (auto simp: insort_key_snoc)

lemma dueTimers_setTimeout_due:
  "dueTimers D (snd (setTimeout cb D lp)) =
     dueTimers D lp @ [\<lparr>tid = nextId lp, due = now lp + D, callback = cb\<rparr>]"
  by (simp add: dueTimers_def setTimeout_def sort_key_snoc)

lemma dueTimers_setTimeout_early:
  "d < D \<Longrightarrow> dueTimers d (snd (setTimeout cb D lp)) = dueTimers d lp"
  by (simp add: dueTimers_def setTimeout_def)

lemma dueTimers_setTimeout_iff:
  "\<lparr>tid = nextId lp, due = now lp + D, callback = cb\<rparr> \<in> set (dueTimers d (snd (setTimeout cb D lp))) \<longleftrightarrow> D \<le> d"
  by (auto simp add: dueTimers_def setTimeout_def)

lemma fire_loop: "fire t (st\<lparr>loop := lp\<rparr>) = (fire t st)\<lparr>loop := lp\<rparr>"
  by (simp add: connectWebSocket_def restartRecognition_def setIsListening_def
      recognitionEffect_def sendForFactCheck_def sendOverSocket_def postFactCheck_def split: ts_callback.splits option.splits)

lemma fold_fire_loop: "fold fire ts (st\<lparr>loop := lp\<rparr>) = (fold fire ts st)\<lparr>loop := lp\<rparr>"
  by (induction ts arbitrary: st) (simp_all add: fire_loop del: fire.simps)

lemma loop_fire: "loop (fire t st) = loop st"
  by (simp add: connectWebSocket_def restartRecognition_def setIsListening_def
      recognitionEffect_def sendForFactCheck_def sendOverSocket_def postFactCheck_def split: ts_callback.splits option.splits)

lemma loop_fold_fire: "loop (fold fire ts st) = loop st"
  by (induction ts arbitrary: st) (simp_all add: loop_fire del: fire.simps)

lemma loop_elapse: "loop (elapse d st) = advance d (loop st)"
  by (simp add: elapse_def fold_fire_loop)

lemma elapse_alt: "elapse d st = (fold fire (dueTimers d (loop st)) st)\<lparr>loop := advance d (loop st)\<rparr>"
  by (simp add: elapse_def fold_fire_loop)

lemma elapse_setTimeout_due:
  "elapse D (st\<lparr>loop := snd (setTimeout cb D (loop st))\<rparr>) =
     (fire \<lparr>tid = nextId (loop st), due = now (loop st) + D, callback = cb\<rparr> (elapse D st))
       \<lparr>loop := advance D (snd (setTimeout cb D (loop st)))\<rparr>"
  by (simp add: elapse_alt dueTimers_setTimeout_due fold_fire_loop fire_loop del: fire.simps)

lemma elapse_setTimeout_early:
  "d < D \<Longrightarrow> elapse d (st\<lparr>loop := snd (setTimeout cb D (loop st))\<rparr>) =
     (elapse d st)\<lparr>loop := advance d (snd (setTimeout cb D (loop st)))\<rparr>"
  by (simp add: elapse_alt dueTimers_setTimeout_early fold_fire_loop)


lemma fire_yt_loop: "fire_yt t (st\<lparr>loop_yt := lp\<rparr>) = (fire_yt t st)\<lparr>loop_yt := lp\<rparr>"
  by (simp add: connectWebSocket_yt_def split: yt_callback.splits)

lemma fold_fire_yt_loop:
  "fold fire_yt ts (st\<lparr>loop_yt := lp\<rparr>) = (fold fire_yt ts st)\<lparr>loop_yt := lp\<rparr>"
  by (induction ts arbitrary: st) (simp_all add: fire_yt_loop del: fire_yt.simps)

lemma elapse_yt_alt:
  "elapse_yt d st = (fold fire_yt (dueTimers d (loop_yt st)) st)\<lparr>loop_yt := advance d (loop_yt st)\<rparr>"
  by (simp add: elapse_yt_def fold_fire_yt_loop)

lemma elapse_yt_setTimeout_due:
  "elapse_yt D (st\<lparr>loop_yt := snd (setTimeout cb D (loop_yt st))\<rparr>) =
     (fire_yt \<lparr>tid = nextId (loop_yt st), due = now (loop_yt st) + D, callback = cb\<rparr>
        (elapse_yt D st))
       \<lparr>loop_yt := advance D (snd (setTimeout cb D (loop_yt st)))\<rparr>"
  by (simp add: elapse_yt_alt dueTimers_setTimeout_due fold_fire_yt_loop fire_yt_loop
      del: fire_yt.simps)

lemma elapse_yt_setTimeout_early:
  "d < D \<Longrightarrow> elapse_yt d (st\<lparr>loop_yt := snd (setTimeout cb D (loop_yt st))\<rparr>) =
     (elapse_yt d st)\<lparr>loop_yt := advance d (snd (setTimeout cb D (loop_yt st)))\<rparr>"
  by (simp add: elapse_yt_alt dueTimers_setTimeout_early fold_fire_yt_loop)

section \<open>Reconnection of the two WebSocket clients\<close>

text \<open>
  C1: in both views, the close handler of a socket sets exactly one timer, for
  \<^verbatim>\<open>connectWebSocket\<close> and 3000 milliseconds: the pending timers grow by that one timer;
  it is among the timers that run within \<open>d\<close> milliseconds exactly when \<open>d\<close> is at
  least 3000; when 3000 milliseconds have passed the view is as it would be without the
  close, with \<^verbatim>\<open>connectWebSocket\<close> run once more, and before that
  \<^verbatim>\<open>connectWebSocket\<close> has not run for it.
\<close>

theorem onclose_schedules_reconnect:
  "loop (ws_onclose st) =
     (loop st)\<lparr>nextId := nextId (loop st) + 1,
               pending := pending (loop st) @ [reconnectTimer (loop st) ConnectWebSocket]\<rparr> \<and>
   (reconnectTimer (loop st) ConnectWebSocket \<in> set (dueTimers d (loop (ws_onclose st)))
      \<longleftrightarrow> 3000 \<le> d) \<and>
   elapse 3000 (ws_onclose st) =
     (connectWebSocket (elapse 3000 st))\<lparr>loop := advance 3000 (loop (ws_onclose st))\<rparr> \<and>
   (d < 3000 \<longrightarrow>
      elapse d (ws_onclose st) = (elapse d st)\<lparr>loop := advance d (loop (ws_onclose st))\<rparr>) \<and>
   loop_yt (ws_onclose_yt yt) =
     (loop_yt yt)\<lparr>nextId := nextId (loop_yt yt) + 1,
                  pending := pending (loop_yt yt) @
                    [reconnectTimer (loop_yt yt) ConnectWebSocket_yt]\<rparr> \<and>
   (reconnectTimer (loop_yt yt) ConnectWebSocket_yt \<in> set (dueTimers d (loop_yt (ws_onclose_yt yt)))
      \<longleftrightarrow> 3000 \<le> d) \<and>
   elapse_yt 3000 (ws_onclose_yt yt) =
     (connectWebSocket_yt
        (elapse_yt 3000 (yt\<lparr>isConnected := False,
                              reconnectTimeoutRef := Some (nextId (loop_yt yt))\<rparr>)))
       \<lparr>loop_yt := advance 3000 (loop_yt (ws_onclose_yt yt))\<rparr> \<and>
   (d < 3000 \<longrightarrow>
      elapse_yt d (ws_onclose_yt yt) =
        (elapse_yt d (yt\<lparr>isConnected := False,
                           reconnectTimeoutRef := Some (nextId (loop_yt yt))\<rparr>))
          \<lparr>loop_yt := advance d (loop_yt (ws_onclose_yt yt))\<rparr>)"
proof (intro conjI impI)
  show "loop (ws_onclose st) =
     (loop st)\<lparr>nextId := nextId (loop st) + 1,
               pending := pending (loop st) @ [reconnectTimer (loop st) ConnectWebSocket]\<rparr>"
    by (simp add: ws_onclose_def setTimeout_def reconnectTimer_def)
  show "reconnectTimer (loop st) ConnectWebSocket \<in> set (dueTimers d (loop (ws_onclose st)))
      \<longleftrightarrow> 3000 \<le> d"
    by (simp add: ws_onclose_def reconnectTimer_def dueTimers_setTimeout_iff)
  show "elapse 3000 (ws_onclose st) =
     (connectWebSocket (elapse 3000 st))\<lparr>loop := advance 3000 (loop (ws_onclose st))\<rparr>"
    by (simp add: ws_onclose_def elapse_setTimeout_due)
  show "loop_yt (ws_onclose_yt yt) =
     (loop_yt yt)\<lparr>nextId := nextId (loop_yt yt) + 1,
                  pending := pending (loop_yt yt) @
                    [reconnectTimer (loop_yt yt) ConnectWebSocket_yt]\<rparr>"
    by (simp add: ws_onclose_yt_def setTimeout_def reconnectTimer_def)
  show "reconnectTimer (loop_yt yt) ConnectWebSocket_yt \<in> set (dueTimers d (loop_yt (ws_onclose_yt yt)))
      \<longleftrightarrow> 3000 \<le> d"
    using dueTimers_setTimeout_iff [of "loop_yt yt" 3000 ConnectWebSocket_yt d]
    by (simp add: ws_onclose_yt_def reconnectTimer_def split_beta)
  show "elapse_yt 3000 (ws_onclose_yt yt) =
     (connectWebSocket_yt
        (elapse_yt 3000 (yt\<lparr>isConnected := False,
                              reconnectTimeoutRef := Some (nextId (loop_yt yt))\<rparr>)))
       \<lparr>loop_yt := advance 3000 (loop_yt (ws_onclose_yt yt))\<rparr>"
    using elapse_yt_setTimeout_due
      [where D = 3000 and cb = ConnectWebSocket_yt and
         st = "yt\<lparr>isConnected := False, reconnectTimeoutRef := Some (nextId (loop_yt yt))\<rparr>"]
    by (simp add: ws_onclose_yt_def split_beta setTimeout_def)
next
  assume "d < 3000"
  then show "elapse d (ws_onclose st) = (elapse d st)\<lparr>loop := advance d (loop (ws_onclose st))\<rparr>"
    by (simp add: ws_onclose_def elapse_setTimeout_early)
next
  assume "d < 3000"
  then show "elapse_yt d (ws_onclose_yt yt) =
        (elapse_yt d (yt\<lparr>isConnected := False,
                           reconnectTimeoutRef := Some (nextId (loop_yt yt))\<rparr>))
          \<lparr>loop_yt := advance d (loop_yt (ws_onclose_yt yt))\<rparr>"
    using elapse_yt_setTimeout_early
      [where d = d and D = 3000 and cb = ConnectWebSocket_yt and
         st = "yt\<lparr>isConnected := False, reconnectTimeoutRef := Some (nextId (loop_yt yt))\<rparr>"]
    by (simp add: ws_onclose_yt_def split_beta setTimeout_def)
qed

theorem onclose_schedules_reconnect_witness:
  "pending (loop (ws_onclose (mounted []))) = [\<lparr>tid = 1, due = 3000, callback = ConnectWebSocket\<rparr>] \<and>
   sockets (mounted []) = 1 \<and>
   sockets (elapse 2999 (ws_onclose (mounted []))) = 1 \<and>
   sockets (elapse 3000 (ws_onclose (mounted []))) = 2 \<and>
   pending (loop (elapse 3000 (ws_onclose (mounted [])))) = [] \<and>
   pending (loop_yt (ws_onclose_yt mounted_yt)) = [\<lparr>tid = 1, due = 3000, callback = ConnectWebSocket_yt\<rparr>] \<and>
   sockets_yt (elapse_yt 2999 (ws_onclose_yt mounted_yt)) = 1 \<and>
   sockets_yt (elapse_yt 3000 (ws_onclose_yt mounted_yt)) = 2"
  using onclose_schedules_reconnect [where st = "mounted []" and d = 2999 and yt = mounted_yt]
  by (simp add: mounted_def mounted_yt_def recognitionEffect_def TruthSeeker_init_def YouTubeLive_init_def
      eventloop_init_def reconnectTimer_def elapse_def elapse_yt_def dueTimers_def advance_def
      connectWebSocket_def connectWebSocket_yt_def ws_onclose_def ws_onclose_yt_def setTimeout_def)

section \<open>Restart of the speech recognition\<close>

text \<open>
  The handler by itself, for the \<^verbatim>\<open>isListening\<close> that it captured: false does nothing;
  true sets one timer of 100 milliseconds, after which \<^verbatim>\<open>recognition.start()\<close> is called,
  and \<^verbatim>\<open>isListening\<close> is set to false if the call throws.
\<close>

lemma recognition_onend_handler:
  "recognition_onend False r st = st \<and>
   recognition_onend True r st =
     st\<lparr>loop := (loop st)\<lparr>nextId := nextId (loop st) + 1,
                            pending := pending (loop st) @ [restartTimer (loop st) r]\<rparr>\<rparr> \<and>
   (restartTimer (loop st) r \<in> set (dueTimers d (loop (recognition_onend True r st)))
      \<longleftrightarrow> 100 \<le> d) \<and>
   elapse 100 (recognition_onend True r st) =
     (restartRecognition r (elapse 100 st))
       \<lparr>loop := advance 100 (loop (recognition_onend True r st))\<rparr> \<and>
   (d < 100 \<longrightarrow>
      elapse d (recognition_onend True r st) =
        (elapse d st)\<lparr>loop := advance d (loop (recognition_onend True r st))\<rparr>) \<and>
   (r \<in> set (started st) \<longrightarrow> restartRecognition r st = setIsListening False st) \<and>
   (r \<notin> set (started st) \<longrightarrow> restartRecognition r st = st\<lparr>started := r # started st\<rparr>)"
proof (intro conjI impI)
  show "recognition_onend False r st = st"
    by (simp add: recognition_onend_def)
  show "recognition_onend True r st =
     st\<lparr>loop := (loop st)\<lparr>nextId := nextId (loop st) + 1,
                            pending := pending (loop st) @ [restartTimer (loop st) r]\<rparr>\<rparr>"
    by (simp add: recognition_onend_def setTimeout_def restartTimer_def)
  show "restartTimer (loop st) r \<in> set (dueTimers d (loop (recognition_onend True r st)))
      \<longleftrightarrow> 100 \<le> d"
    by (simp add: recognition_onend_def restartTimer_def dueTimers_setTimeout_iff)
  show "elapse 100 (recognition_onend True r st) =
     (restartRecognition r (elapse 100 st))
       \<lparr>loop := advance 100 (loop (recognition_onend True r st))\<rparr>"
    by (simp add: recognition_onend_def elapse_setTimeout_due)
next
  assume "d < 100"
  then show "elapse d (recognition_onend True r st) =
        (elapse d st)\<lparr>loop := advance d (loop (recognition_onend True r st))\<rparr>"
    by (simp add: recognition_onend_def elapse_setTimeout_early)
next
  assume "r \<in> set (started st)"
  then show "restartRecognition r st = setIsListening False st"
    by (simp add: restartRecognition_def)
next
  assume "r \<notin> set (started st)"
  then show "restartRecognition r st = st\<lparr>started := r # started st\<rparr>"
    by (simp add: restartRecognition_def)
qed

lemma closure_inv_cong:
  assumes "closure_inv st" and "started st' = started st"
    and "recognitions st' = recognitions st" and "recognitionRef st' = recognitionRef st"
    and "isListening st' = isListening st" and "pending (loop st') = pending (loop st)"
    and "speechSupported st' = speechSupported st"
  shows "closure_inv st'"
  using assms by (simp add: closure_inv_def del: isRestart.simps)

lemma closure_inv_setIsListening:
  assumes "closure_inv st"
  shows "closure_inv (setIsListening v st)"
  using assms
  by (auto simp: closure_inv_def setIsListening_def recognitionEffect_def nth_append
      simp del: isRestart.simps)

lemma closure_inv_toggleListening:
  assumes "closure_inv st"
  shows "closure_inv (toggleListening st)"
proof (cases "recognitionRef st")
  case None
  with assms show ?thesis by (simp add: toggleListening_def)
next
  case (Some r)
  show ?thesis
  proof (cases "isListening st")
    case True
    with Some closure_inv_setIsListening [OF assms] show ?thesis
      by (simp add: toggleListening_def)
  next
    case False
    show ?thesis
    proof (cases "r \<in> set (started st)")
      case True
      have "closure_inv (st\<lparr>error := x\<rparr>)" for x
        using assms by (rule closure_inv_cong) simp_all
      with Some False True show ?thesis by (simp add: toggleListening_def)
    next
      case notStarted: False
      from assms Some False have "closure_inv (st\<lparr>started := r # started st\<rparr>)"
        by (auto simp: closure_inv_def simp del: isRestart.simps)
      then have "closure_inv (setIsListening True (st\<lparr>started := r # started st\<rparr>))"
        by (rule closure_inv_setIsListening)
      then have "closure_inv ((setIsListening True (st\<lparr>started := r # started st\<rparr>))\<lparr>error := []\<rparr>)"
        by (rule closure_inv_cong) simp_all
      with Some False notStarted show ?thesis by (simp add: toggleListening_def)
    qed
  qed
qed

lemma closure_inv_fire:
  assumes "closure_inv st" and "\<not> isRestart t"
  shows "closure_inv (fire t st)"
proof (cases "callback t")
  case ConnectWebSocket
  have "closure_inv (connectWebSocket st)"
    using assms(1) by (rule closure_inv_cong) (simp_all add: connectWebSocket_def)
  with ConnectWebSocket show ?thesis by simp
next
  case (RestartRecognition r)
  with assms(2) show ?thesis by simp
next
  case (SendForFactCheck sentence)
  have "closure_inv (sendForFactCheck sentence st)"
    using assms(1)
    by (rule closure_inv_cong)
      (simp_all add: sendForFactCheck_def sendOverSocket_def postFactCheck_def
        split: option.splits)
  with SendForFactCheck show ?thesis by simp
qed

lemma closure_inv_fold_fire:
  "closure_inv st \<Longrightarrow> \<forall>t \<in> set ts. \<not> isRestart t \<Longrightarrow> closure_inv (fold fire ts st)"
  by (induction ts arbitrary: st)
    (simp_all add: closure_inv_fire del: fire.simps isRestart.simps)

lemma closure_inv_elapse:
  assumes "closure_inv st"
  shows "closure_inv (elapse d st)"
proof -
  from assms have no: "\<forall>t \<in> set (pending (loop st)). \<not> isRestart t"
    by (simp add: closure_inv_def del: isRestart.simps)
  then have due: "\<forall>t \<in> set (dueTimers d (loop st)). \<not> isRestart t"
    by (simp add: dueTimers_def del: isRestart.simps)
  from assms no have "closure_inv (st\<lparr>loop := advance d (loop st)\<rparr>)"
    by (simp add: closure_inv_def advance_def del: isRestart.simps)
  from closure_inv_fold_fire [OF this due] show ?thesis
    by (simp add: elapse_def)
qed

lemma closure_inv_processSentenceForFactCheck:
  assumes "closure_inv st"
  shows "closure_inv (processSentenceForFactCheck s st)"
  using assms
  by (auto simp: closure_inv_def processSentenceForFactCheck_def Let_def split_beta
      setTimeout_def clearTimeout_def split: option.splits)

lemma closure_inv_step:
  assumes "closure_inv st"
  shows "closure_inv (step e st)"
proof (cases e)
  case (OnResult event)
  have "closure_inv (st\<lparr>transcription := x, currentSentence := y\<rparr>)" for x y
    using assms by (rule closure_inv_cong) simp_all
  moreover have "closure_inv (st\<lparr>currentSentence := y\<rparr>)" for y
    using assms by (rule closure_inv_cong) simp_all
  ultimately show ?thesis
    using OnResult
    by (simp add: recognition_onresult_def Let_def closure_inv_processSentenceForFactCheck)
next
  case (OnError x)
  have "closure_inv (st\<lparr>error := y\<rparr>)" for y
    using assms by (rule closure_inv_cong) simp_all
  with OnError show ?thesis
    by (simp add: recognition_onerror_def closure_inv_setIsListening)
next
  case (OnEnd r)
  show ?thesis
  proof (cases "r \<in> set (started st) \<and> r < length (recognitions st)")
    case True
    with assms have "\<not> recognitions st ! r"
      by (simp add: closure_inv_def del: isRestart.simps)
    moreover from assms have "closure_inv (st\<lparr>started := removeAll r (started st)\<rparr>)"
      by (auto simp: closure_inv_def simp del: isRestart.simps)
    ultimately show ?thesis
      using OnEnd True by (simp add: recognition_onend_def)
  next
    case False
    with OnEnd assms show ?thesis by auto
  qed
next
  case ToggleListening
  with assms show ?thesis by (simp add: closure_inv_toggleListening)
next
  case (WsOpen ws)
  have "closure_inv (st\<lparr>openSockets := x\<rparr>)" for x
    using assms by (rule closure_inv_cong) simp_all
  with WsOpen show ?thesis by simp
next
  case (WsClose ws)
  from assms have "closure_inv (ws_onclose (st\<lparr>openSockets := x\<rparr>))" for x
    by (simp add: closure_inv_def ws_onclose_def setTimeout_def)
  with WsClose show ?thesis by simp
next
  case (WsMessage m)
  have "closure_inv (ws_onmessage m st)"
    using assms by (rule closure_inv_cong) (simp_all add: ws_onmessage_def)
  with WsMessage show ?thesis by simp
next
  case (HealthResponse r)
  have "closure_inv (checkHealth r st)"
    using assms
    by (rule closure_inv_cong) (simp_all add: checkHealth_def split: fetch_outcome.splits)
  with HealthResponse show ?thesis by simp
next
  case (FactCheckResponse r)
  have "closure_inv (factCheckResponse r st)"
    using assms
    by (rule closure_inv_cong) (simp_all add: factCheckResponse_def split: fetch_outcome.splits)
  with FactCheckResponse show ?thesis by simp
next
  case ClearAll
  have "closure_inv (clearAll st)"
    using assms by (rule closure_inv_cong) (simp_all add: clearAll_def)
  with ClearAll show ?thesis by simp
next
  case (Elapse d)
  with assms show ?thesis by (simp add: closure_inv_elapse)
next
  case (WebSocketThrows b)
  have "closure_inv (st\<lparr>webSocketThrows := b\<rparr>)"
    using assms by (rule closure_inv_cong) simp_all
  with WebSocketThrows show ?thesis by simp
qed

lemma closure_inv_run: "closure_inv st \<Longrightarrow> closure_inv (run es st)"
  unfolding run_def
  by (induction es arbitrary: st) (simp_all add: closure_inv_step del: step.simps)

lemma closure_inv_mounted: "closure_inv (mounted sid)"
  by (simp add: closure_inv_def mounted_def connectWebSocket_def recognitionEffect_def
      TruthSeeker_init_def eventloop_init_def)

text \<open>
  In no state that the mounted view reaches does an end event set the restart timer,
  whatever \<^verbatim>\<open>isListening\<close> is then: the event comes to a started object, and the
  handlers of a started object hold \<^verbatim>\<open>isListening\<close> as false.
\<close>

lemma restart_never_set:
  "loop (step (OnEnd r) (run es (mounted sid))) = loop (run es (mounted sid))"
proof -
  have inv: "closure_inv (run es (mounted sid))"
    by (rule closure_inv_run) (rule closure_inv_mounted)
  show ?thesis
  proof (cases "r \<in> set (started (run es (mounted sid))) \<and>
      r < length (recognitions (run es (mounted sid)))")
    case True
    with inv have "\<not> recognitions (run es (mounted sid)) ! r"
      by (simp add: closure_inv_def del: isRestart.simps)
    with True show ?thesis by (simp add: recognition_onend_def)
  next
    case False
    then show ?thesis by auto
  qed
qed

text \<open>
  C2 says that whenever the end event fires while \<^verbatim>\<open>isListening\<close> is true, the view
  calls \<^verbatim>\<open>recognition.start()\<close> again after 100 milliseconds. After one click on the
  microphone button, \<^verbatim>\<open>toggleListening\<close> has started the recognition object of the first
  render and \<^verbatim>\<open>isListening\<close> is true. When the end event of that object fires, its
  handler tests the \<^verbatim>\<open>isListening\<close> of the first render, which is false: no timer is
  set, and 100 milliseconds later no recognition object is started, while the view still
  shows that it is listening.
\<close>

theorem restart_missed_after_toggle:
  "isListening (run [ToggleListening] (mounted [])) \<and>
   started (run [ToggleListening] (mounted [])) = [0] \<and>
   recognitions (run [ToggleListening] (mounted [])) = [False, True] \<and>
   isListening (run [ToggleListening, OnEnd 0] (mounted [])) \<and>
   pending (loop (run [ToggleListening, OnEnd 0] (mounted []))) = [] \<and>
   isListening (run [ToggleListening, OnEnd 0, Elapse 100] (mounted [])) \<and>
   started (run [ToggleListening, OnEnd 0, Elapse 100] (mounted [])) = [] \<and>
   fired (loop (run [ToggleListening, OnEnd 0, Elapse 100] (mounted []))) = []"
  by (simp add: run_def mounted_def TruthSeeker_init_def eventloop_init_def
      connectWebSocket_def recognitionEffect_def toggleListening_def setIsListening_def
      recognition_onend_def elapse_def dueTimers_def advance_def)

section \<open>The length threshold of the fact-check\<close>

lemma trim_Nil: "trim [] = []"
  by (simp add: trim_def)

lemma outbox_processSentenceForFactCheck:
  "outbox (processSentenceForFactCheck s st) = outbox st"
  by (simp add: processSentenceForFactCheck_def Let_def split_beta)

lemma nextId_clearTimeout: "nextId (clearTimeout i lp) = nextId lp"
  by (simp add: clearTimeout_def)

lemma nextId_processSentenceForFactCheck:
  "nextId (loop (processSentenceForFactCheck s st)) = nextId (loop st) + 1"
  by (simp add: processSentenceForFactCheck_def Let_def split_beta setTimeout_def
      nextId_clearTimeout split: option.splits)

lemma last_pending_processSentenceForFactCheck:
  "last (pending (loop (processSentenceForFactCheck s st))) =
     \<lparr>tid = nextId (loop st), due = now (loop st) + 1000, callback = SendForFactCheck s\<rparr>"
  by (simp add: processSentenceForFactCheck_def Let_def split_beta setTimeout_def
      clearTimeout_def split: option.splits)

text \<open>
  C8: \<^verbatim>\<open>recognition.onresult\<close> calls \<^verbatim>\<open>processSentenceForFactCheck\<close> exactly when the
  trimmed final transcript of the event (the final results from \<^verbatim>\<open>resultIndex\<close> on,
  concatenated) is longer than 10 code units, and then with the trimmed transcript: the
  debounce timer is set for it. With 10 or less, no timer is set and the refs and
  \<^verbatim>\<open>isProcessing\<close> stay as they were. The handler itself sends nothing in either case.
\<close>

theorem onresult_fact_check_threshold:
  "(length (trim (finalTranscript event)) \<le> 10 \<longrightarrow>
      loop (recognition_onresult event st) = loop st \<and>
      processTimeoutRef (recognition_onresult event st) = processTimeoutRef st \<and>
      isProcessing (recognition_onresult event st) = isProcessing st) \<and>
   (10 < length (trim (finalTranscript event)) \<longrightarrow>
      recognition_onresult event st =
        processSentenceForFactCheck (trim (finalTranscript event))
          (st\<lparr>transcription := transcription st @ finalTranscript event @ str '' '',
              currentSentence := []\<rparr>) \<and>
      last (pending (loop (recognition_onresult event st))) =
        \<lparr>tid = nextId (loop st), due = now (loop st) + 1000,
         callback = SendForFactCheck (trim (finalTranscript event))\<rparr>) \<and>
   (nextId (loop (recognition_onresult event st)) \<noteq> nextId (loop st)
      \<longleftrightarrow> 10 < length (trim (finalTranscript event))) \<and>
   outbox (recognition_onresult event st) = outbox st"
proof (intro conjI impI)
  assume short: "length (trim (finalTranscript event)) \<le> 10"
  then show "loop (recognition_onresult event st) = loop st"
    and "processTimeoutRef (recognition_onresult event st) = processTimeoutRef st"
    and "isProcessing (recognition_onresult event st) = isProcessing st"
    by (simp_all add: recognition_onresult_def Let_def)
next
  assume long: "10 < length (trim (finalTranscript event))"
  then have ne: "finalTranscript event \<noteq> []"
    using trim_Nil by fastforce
  with long show eq: "recognition_onresult event st =
        processSentenceForFactCheck (trim (finalTranscript event))
          (st\<lparr>transcription := transcription st @ finalTranscript event @ str '' '',
              currentSentence := []\<rparr>)"
    by (simp add: recognition_onresult_def Let_def)
  show "last (pending (loop (recognition_onresult event st))) =
        \<lparr>tid = nextId (loop st), due = now (loop st) + 1000,
         callback = SendForFactCheck (trim (finalTranscript event))\<rparr>"
    by (simp add: eq last_pending_processSentenceForFactCheck)
next
  show "nextId (loop (recognition_onresult event st)) \<noteq> nextId (loop st)
      \<longleftrightarrow> 10 < length (trim (finalTranscript event))"
    by (simp add: recognition_onresult_def Let_def nextId_processSentenceForFactCheck trim_Nil)
  show "outbox (recognition_onresult event st) = outbox st"
    by (simp add: recognition_onresult_def Let_def outbox_processSentenceForFactCheck)
qed

theorem onresult_fact_check_threshold_witness:
  "length (trim (finalTranscript (heard '' ten chars  ''))) = 9 \<and>
   pending (loop (recognition_onresult (heard '' ten chars  '') (mounted []))) = [] \<and>
   length (trim (finalTranscript (heard '' ten chars.  ''))) = 10 \<and>
   pending (loop (recognition_onresult (heard '' ten chars.  '') (mounted []))) = [] \<and>
   length (trim (finalTranscript (heard '' eleven char ''))) = 11 \<and>
   pending (loop (recognition_onresult (heard '' eleven char '') (mounted []))) =
     [\<lparr>tid = 1, due = 1000, callback = SendForFactCheck (str ''eleven char'')\<rparr>]"
  using onresult_fact_check_threshold [where event = "heard '' ten chars  ''" and st = "mounted []"]
        onresult_fact_check_threshold [where event = "heard '' ten chars.  ''" and st = "mounted []"]
        onresult_fact_check_threshold [where event = "heard '' eleven char ''" and st = "mounted []"]
  by (simp add: heard_def finalTranscript_def trim_def isWhiteSpace_def str_def mounted_def
      recognitionEffect_def
      TruthSeeker_init_def eventloop_init_def connectWebSocket_def recognition_onresult_def
      processSentenceForFactCheck_def setTimeout_def Let_def)

section \<open>The debounce of the fact-check\<close>

lemma frame_simple:
  "loop (recognition_onerror e st) = loop st"
  "processTimeoutRef (recognition_onerror e st) = processTimeoutRef st"
  "outbox (recognition_onerror e st) = outbox st"
  "loop (ws_onmessage m st) = loop st"
  "processTimeoutRef (ws_onmessage m st) = processTimeoutRef st"
  "outbox (ws_onmessage m st) = outbox st"
  "loop (checkHealth r st) = loop st"
  "processTimeoutRef (checkHealth r st) = processTimeoutRef st"
  "outbox (checkHealth r st) = outbox st"
  "loop (factCheckResponse r st) = loop st"
  "processTimeoutRef (factCheckResponse r st) = processTimeoutRef st"
  "outbox (factCheckResponse r st) = outbox st"
  "loop (clearAll st) = loop st"
  "processTimeoutRef (clearAll st) = processTimeoutRef st"
  "outbox (clearAll st) = outbox st"
  "loop (toggleListening st) = loop st"
  "processTimeoutRef (toggleListening st) = processTimeoutRef st"
  "outbox (toggleListening st) = outbox st"
  by (simp_all add: recognition_onerror_def setIsListening_def recognitionEffect_def
      ws_onmessage_def checkHealth_def factCheckResponse_def clearAll_def toggleListening_def
      split: fetch_outcome.splits option.splits)

lemma frame_timer:
  "loop (ws_onclose st) = snd (setTimeout ConnectWebSocket 3000 (loop st))"
  "processTimeoutRef (ws_onclose st) = processTimeoutRef st"
  "outbox (ws_onclose st) = outbox st"
  "loop (recognition_onend l r st) =
     (if l then snd (setTimeout (RestartRecognition r) 100 (loop st)) else loop st)"
  "processTimeoutRef (recognition_onend l r st) = processTimeoutRef st"
  "outbox (recognition_onend l r st) = outbox st"
  by (simp_all add: ws_onclose_def recognition_onend_def)

lemma frame_fire:
  "processTimeoutRef (fire t st) = processTimeoutRef st"
  "outbox (fire t st) = (if isDebounce t then outbox st @ [last (outbox (fire t st))] else outbox st)"
  by (simp_all add: connectWebSocket_def restartRecognition_def setIsListening_def
      recognitionEffect_def sendForFactCheck_def sendOverSocket_def postFactCheck_def split: ts_callback.splits option.splits)

lemma processTimeoutRef_fold_fire: "processTimeoutRef (fold fire ts st) = processTimeoutRef st"
  by (induction ts arbitrary: st) (simp_all add: frame_fire del: fire.simps)

lemma processTimeoutRef_elapse: "processTimeoutRef (elapse d st) = processTimeoutRef st"
  by (simp add: elapse_def processTimeoutRef_fold_fire)

lemma outbox_fold_fire_quiet:
  "\<forall>t \<in> set ts. \<not> isDebounce t \<Longrightarrow> outbox (fold fire ts st) = outbox st"
proof (induction ts arbitrary: st)
  case Nil
  then show ?case by simp
next
  case (Cons t ts)
  then have "outbox (fire t st) = outbox st"
    using frame_fire(2) [of t st] by simp
  with Cons show ?case by (simp del: fire.simps)
qed

lemma length_outbox_fold_fire:
  "length (outbox (fold fire ts st)) = length (outbox st) + length (filter isDebounce ts)"
proof (induction ts arbitrary: st)
  case Nil
  then show ?case by simp
next
  case (Cons t ts)
  have "length (outbox (fire t st)) = length (outbox st) + (if isDebounce t then 1 else 0)"
    by (simp add: connectWebSocket_def restartRecognition_def setIsListening_def
      recognitionEffect_def sendForFactCheck_def sendOverSocket_def postFactCheck_def split: ts_callback.splits option.splits)
  with Cons show ?case by (simp del: fire.simps isDebounce.simps)
qed


lemma set_dueTimers: "set (dueTimers d lp) = {t \<in> set (pending lp). due t \<le> now lp + d}"
  by (auto simp: dueTimers_def)

lemma debounce_inv_setTimeout:
  assumes "debounce_inv st" and "\<not> isDebounce \<lparr>tid = nextId (loop st), due = now (loop st) + D, callback = cb\<rparr>"
  shows "debounce_inv (st\<lparr>loop := snd (setTimeout cb D (loop st))\<rparr>)"
  using assms unfolding debounce_inv_def setTimeout_def
  by (auto simp del: isDebounce.simps)

lemma debounce_inv_processSentenceForFactCheck:
  assumes "debounce_inv st"
  shows "debounce_inv (processSentenceForFactCheck s st)"
proof (cases "processTimeoutRef st")
  case None
  with assms show ?thesis
    unfolding debounce_inv_def processSentenceForFactCheck_def setTimeout_def Let_def
    by (auto simp del: isDebounce.simps)
next
  case (Some i)
  with assms have "0 < i" by (simp add: debounce_inv_def)
  with Some assms show ?thesis
    unfolding debounce_inv_def processSentenceForFactCheck_def setTimeout_def Let_def
      clearTimeout_def
    by (auto simp del: isDebounce.simps simp: distinct_map_filter)
qed

lemma debounce_inv_cong:
  assumes "debounce_inv st" and "loop st' = loop st" and "processTimeoutRef st' = processTimeoutRef st"
  shows "debounce_inv st'"
  using assms by (simp add: debounce_inv_def del: isDebounce.simps)

lemma debounce_inv_elapse:
  assumes "debounce_inv st"
  shows "debounce_inv (elapse d st)"
  using assms unfolding debounce_inv_def
  by (auto simp: loop_elapse processTimeoutRef_elapse advance_def distinct_map_filter
      set_dueTimers simp del: isDebounce.simps)

lemma debounce_inv_step:
  assumes "debounce_inv st"
  shows "debounce_inv (step e st)"
proof (cases e)
  case (OnResult event)
  have "debounce_inv (st\<lparr>transcription := x, currentSentence := y\<rparr>)" for x y
    using assms by (rule debounce_inv_cong) simp_all
  moreover have "debounce_inv (st\<lparr>currentSentence := y\<rparr>)" for y
    using assms by (rule debounce_inv_cong) simp_all
  ultimately show ?thesis
    using OnResult
    by (simp add: recognition_onresult_def Let_def debounce_inv_processSentenceForFactCheck)
next
  case (OnError x)
  with assms show ?thesis
    by (auto intro: debounce_inv_cong simp: frame_simple)
next
  case (OnEnd r)
  have a: "debounce_inv (st\<lparr>started := x\<rparr>)" for x
    using assms by (rule debounce_inv_cong) simp_all
  from debounce_inv_setTimeout [OF a, of _ 100 "RestartRecognition r"]
  have "debounce_inv (recognition_onend l r (st\<lparr>started := x\<rparr>))" for l x
    using a by (simp add: recognition_onend_def)
  with OnEnd assms show ?thesis by simp
next
  case ToggleListening
  with assms show ?thesis
    by (auto intro: debounce_inv_cong simp: frame_simple)
next
  case (WsOpen ws)
  with assms show ?thesis
    by (auto intro: debounce_inv_cong)
next
  case (WsClose ws)
  have a: "debounce_inv (st\<lparr>openSockets := x\<rparr>)" for x
    using assms by (rule debounce_inv_cong) simp_all
  from WsClose debounce_inv_setTimeout [OF a, of _ 3000 ConnectWebSocket] show ?thesis
    by (simp add: ws_onclose_def)
next
  case (WsMessage m)
  with assms show ?thesis
    by (auto intro: debounce_inv_cong simp: frame_simple)
next
  case (HealthResponse r)
  with assms show ?thesis
    by (auto intro: debounce_inv_cong simp: frame_simple)
next
  case (FactCheckResponse r)
  with assms show ?thesis
    by (auto intro: debounce_inv_cong simp: frame_simple)
next
  case ClearAll
  with assms show ?thesis
    by (auto intro: debounce_inv_cong simp: frame_simple)
next
  case (Elapse d)
  with assms show ?thesis by (simp add: debounce_inv_elapse)
next
  case (WebSocketThrows b)
  with assms show ?thesis
    by (auto intro: debounce_inv_cong)
qed

lemma debounce_inv_run:
  "debounce_inv st \<Longrightarrow> debounce_inv (run es st)"
  unfolding run_def
  by (induction es arbitrary: st) (simp_all add: debounce_inv_step del: step.simps)

lemma debounce_inv_mounted: "debounce_inv (mounted sid)"
  by (simp add: debounce_inv_def mounted_def connectWebSocket_def recognitionEffect_def
      TruthSeeker_init_def eventloop_init_def)

lemma at_most_one_filter:
  assumes "distinct (map f xs)" and "\<forall>x \<in> set xs. P x \<longrightarrow> f x = i"
  shows "length (filter P xs) \<le> 1"
  using assms
proof (induction xs)
  case Nil
  then show ?case by simp
next
  case (Cons x xs)
  show ?case
  proof (cases "P x")
    case True
    with Cons.prems have "f x = i" by simp
    have "\<not> P y" if "y \<in> set xs" for y
    proof
      assume "P y"
      with Cons.prems(2) that have "f y = i" by simp
      with \<open>f x = i\<close> have "f x = f y" by simp
      from this that have "f x \<in> f ` set xs" by (rule image_eqI)
      with Cons.prems(1) show False by simp
    qed
    then have "\<forall>y \<in> set xs. \<not> P y" by blast
    then have "filter P xs = []" by (simp add: filter_empty_conv)
    with True show ?thesis by simp
  next
    case False
    with Cons show ?thesis by simp
  qed
qed

lemma debounce_inv_at_most_one:
  assumes "debounce_inv st"
  shows "length (debounceTimers st) \<le> 1"
proof (cases "processTimeoutRef st")
  case None
  with assms have "\<forall>t \<in> set (pending (loop st)). \<not> isDebounce t"
    by (auto simp: debounce_inv_def simp del: isDebounce.simps)
  then show ?thesis by (simp add: debounceTimers_def filter_empty_conv del: isDebounce.simps)
next
  case (Some i)
  with assms have "distinct (map tid (pending (loop st)))"
    and "\<forall>t \<in> set (pending (loop st)). isDebounce t \<longrightarrow> tid t = i"
    by (auto simp: debounce_inv_def simp del: isDebounce.simps)
  then show ?thesis unfolding debounceTimers_def by (rule at_most_one_filter)
qed

lemma length_outbox_elapse:
  assumes "debounce_inv st"
  shows "length (outbox (elapse d st)) \<le> length (outbox st) + 1"
proof -
  have "filter isDebounce (dueTimers d (loop st)) =
      sort_key due (filter (\<lambda>t. due t \<le> now (loop st) + d) (debounceTimers st))"
    by (simp add: dueTimers_def debounceTimers_def filter_sort conj_commute del: isDebounce.simps)
  then have "length (filter isDebounce (dueTimers d (loop st))) \<le> length (debounceTimers st)"
    by (simp del: isDebounce.simps)
  with debounce_inv_at_most_one [OF assms] show ?thesis
    by (simp add: elapse_def length_outbox_fold_fire del: isDebounce.simps)
qed


lemma dead_cong:
  assumes "dead i st" and "loop st' = loop st"
  shows "dead i st'"
  using assms by (simp add: dead_def)

lemma dead_setTimeout:
  assumes "dead i st"
  shows "dead i (st\<lparr>loop := snd (setTimeout cb D (loop st))\<rparr>)"
  using assms by (auto simp: dead_def setTimeout_def)

lemma dead_processSentenceForFactCheck:
  assumes "dead i st"
  shows "dead i (processSentenceForFactCheck s st)"
  using assms
  by (auto simp: dead_def processSentenceForFactCheck_def Let_def split_beta setTimeout_def
      clearTimeout_def split: option.splits)

lemma dead_elapse:
  assumes "dead i st"
  shows "dead i (elapse d st)"
  using assms
  by (auto simp: dead_def loop_elapse advance_def set_dueTimers)

lemma dead_step:
  assumes "dead i st"
  shows "dead i (step e st)"
proof (cases e)
  case (OnResult event)
  have "dead i (st\<lparr>transcription := x, currentSentence := y\<rparr>)" for x y
    using assms by (rule dead_cong) simp
  moreover have "dead i (st\<lparr>currentSentence := y\<rparr>)" for y
    using assms by (rule dead_cong) simp
  ultimately show ?thesis
    using OnResult
    by (simp add: recognition_onresult_def Let_def dead_processSentenceForFactCheck)
next
  case (OnEnd r)
  have a: "dead i (st\<lparr>started := x\<rparr>)" for x
    using assms by (rule dead_cong) simp
  from dead_setTimeout [OF a, where cb = "RestartRecognition r" and D = 100]
  have "dead i (recognition_onend l r (st\<lparr>started := x\<rparr>))" for l x
    using a by (simp add: recognition_onend_def)
  with OnEnd assms show ?thesis by simp
next
  case (WsClose ws)
  have a: "dead i (st\<lparr>openSockets := x\<rparr>)" for x
    using assms by (rule dead_cong) simp
  from WsClose dead_setTimeout [OF a, where cb = ConnectWebSocket and D = 3000] show ?thesis
    by (simp add: ws_onclose_def)
next
  case (Elapse d)
  with assms show ?thesis by (simp add: dead_elapse)
qed (use assms in \<open>auto intro: dead_cong simp: frame_simple\<close>)

lemma dead_run: "dead i st \<Longrightarrow> dead i (run es st)"
  unfolding run_def
  by (induction es arbitrary: st) (simp_all add: dead_step del: step.simps)


lemma armed_after_call:
  assumes "debounce_inv st"
  shows "armed (nextId (loop st)) 1000 (outbox st) (processSentenceForFactCheck a st)"
proof (cases "processTimeoutRef st")
  case None
  with assms show ?thesis
    unfolding debounce_inv_def armed_def processSentenceForFactCheck_def setTimeout_def Let_def
    by (auto simp del: isDebounce.simps)
next
  case (Some i)
  with assms have "0 < i" by (simp add: debounce_inv_def)
  with Some assms show ?thesis
    unfolding debounce_inv_def armed_def processSentenceForFactCheck_def setTimeout_def Let_def
      clearTimeout_def
    by (auto simp del: isDebounce.simps)
qed

lemma armed_cong:
  assumes "armed i b out st" and "loop st' = loop st"
    and "processTimeoutRef st' = processTimeoutRef st" and "outbox st' = outbox st"
  shows "armed i b out st'"
  using assms by (simp add: armed_def del: isDebounce.simps)

lemma armed_setTimeout:
  assumes "armed i b out st"
    and "\<not> isDebounce \<lparr>tid = nextId (loop st), due = now (loop st) + D, callback = cb\<rparr>"
  shows "armed i b out (st\<lparr>loop := snd (setTimeout cb D (loop st))\<rparr>)"
  using assms unfolding armed_def setTimeout_def
  by (auto simp del: isDebounce.simps)

lemma armed_elapse:
  assumes "armed i b out st" and "d < b"
  shows "armed i (b - d) out (elapse d st)"
proof -
  from assms have nd: "\<forall>t \<in> set (dueTimers d (loop st)). \<not> isDebounce t"
    by (fastforce simp: armed_def set_dueTimers simp del: isDebounce.simps)
  from assms have nf: "i \<notin> tid ` set (dueTimers d (loop st))"
    by (fastforce simp: armed_def set_dueTimers simp del: isDebounce.simps)
  have out: "outbox (elapse d st) = outbox st"
    using nd by (simp add: elapse_def outbox_fold_fire_quiet del: isDebounce.simps)
  from assms nf show ?thesis
    unfolding armed_def
    by (auto simp: out loop_elapse processTimeoutRef_elapse advance_def simp del: isDebounce.simps)
qed

lemma armed_step:
  assumes "armed i b out st" and "quiet b (e # es)"
  shows "\<exists>b'. armed i b' out (step e st) \<and> quiet b' es"
proof (cases e)
  case (OnResult event)
  with assms(2) have short: "length (trim (finalTranscript event)) \<le> 10" and q: "quiet b es"
    by simp_all
  have "armed i b out (st\<lparr>transcription := x, currentSentence := y\<rparr>)" for x y
    using assms(1) by (rule armed_cong) simp_all
  moreover have "armed i b out (st\<lparr>currentSentence := y\<rparr>)" for y
    using assms(1) by (rule armed_cong) simp_all
  ultimately have "armed i b out (step e st)"
    using OnResult short by (simp add: recognition_onresult_def Let_def)
  with q show ?thesis by blast
next
  case (OnError x)
  with assms(2) have q: "quiet b es" by simp
  have "armed i b out (step e st)"
    using assms(1) OnError by (auto intro: armed_cong simp: frame_simple)
  with q show ?thesis by blast
next
  case (OnEnd r)
  with assms(2) have q: "quiet b es" by simp
  have a: "armed i b out (st\<lparr>started := x\<rparr>)" for x
    using assms(1) by (rule armed_cong) simp_all
  from armed_setTimeout [OF a, where cb = "RestartRecognition r" and D = 100]
  have "armed i b out (recognition_onend l r (st\<lparr>started := x\<rparr>))" for l x
    using a by (simp add: recognition_onend_def)
  with OnEnd assms(1) have "armed i b out (step e st)" by simp
  with q show ?thesis by blast
next
  case ToggleListening
  with assms(2) have q: "quiet b es" by simp
  have "armed i b out (step e st)"
    using assms(1) ToggleListening by (auto intro: armed_cong simp: frame_simple)
  with q show ?thesis by blast
next
  case (WsOpen ws)
  with assms(2) have q: "quiet b es" by simp
  have "armed i b out (step e st)"
    using assms(1) WsOpen by (auto intro: armed_cong)
  with q show ?thesis by blast
next
  case (WsClose ws)
  with assms(2) have q: "quiet b es" by simp
  have a: "armed i b out (st\<lparr>openSockets := x\<rparr>)" for x
    using assms(1) by (rule armed_cong) simp_all
  from WsClose armed_setTimeout [OF a, where cb = ConnectWebSocket and D = 3000]
  have "armed i b out (step e st)" by (simp add: ws_onclose_def)
  with q show ?thesis by blast
next
  case (WsMessage m)
  with assms(2) have q: "quiet b es" by simp
  have "armed i b out (step e st)"
    using assms(1) WsMessage by (auto intro: armed_cong simp: frame_simple)
  with q show ?thesis by blast
next
  case (HealthResponse r)
  with assms(2) have q: "quiet b es" by simp
  have "armed i b out (step e st)"
    using assms(1) HealthResponse by (auto intro: armed_cong simp: frame_simple)
  with q show ?thesis by blast
next
  case (FactCheckResponse r)
  with assms(2) have q: "quiet b es" by simp
  have "armed i b out (step e st)"
    using assms(1) FactCheckResponse by (auto intro: armed_cong simp: frame_simple)
  with q show ?thesis by blast
next
  case ClearAll
  with assms(2) have q: "quiet b es" by simp
  have "armed i b out (step e st)"
    using assms(1) ClearAll by (auto intro: armed_cong simp: frame_simple)
  with q show ?thesis by blast
next
  case (Elapse d)
  with assms(2) have d: "d < b" and q: "quiet (b - d) es" by simp_all
  from armed_elapse [OF assms(1) d] Elapse have "armed i (b - d) out (step e st)" by simp
  with q show ?thesis by blast
next
  case (WebSocketThrows x)
  with assms(2) have q: "quiet b es" by simp
  have "armed i b out (step e st)"
    using assms(1) WebSocketThrows by (auto intro: armed_cong)
  with q show ?thesis by blast
qed

lemma armed_run:
  "armed i b out st \<Longrightarrow> quiet b es \<Longrightarrow> \<exists>b'. armed i b' out (run es st)"
proof (induction es arbitrary: st b)
  case Nil
  then show ?case by (auto simp: run_def)
next
  case (Cons e es)
  from armed_step [OF Cons.prems] obtain b' where
    "armed i b' out (step e st)" and "quiet b' es" by blast
  from Cons.IH [OF this] show ?case by (simp add: run_def del: step.simps)
qed

lemma statementOf_fire:
  "map statementOf (outbox (fire \<lparr>tid = i, due = t, callback = SendForFactCheck s\<rparr> st)) =
     map statementOf (outbox st) @ [JStr s]"
  by (simp add: sendForFactCheck_def sendOverSocket_def postFactCheck_def str_def
      split: option.splits)

lemma second_call:
  fixes s st
  defines "st' \<equiv> processSentenceForFactCheck s st"
  assumes "armed i b' out st"
  shows "dead i st'"
    and "debounceTimers st' =
      [\<lparr>tid = nextId (loop st), due = now (loop st) + 1000, callback = SendForFactCheck s\<rparr>]"
    and "outbox st' = out"
    and "map statementOf (outbox (elapse 1000 st')) = map statementOf out @ [JStr s]"
proof -
  from assms(2) have ref: "processTimeoutRef st = Some i" and pos: "0 < i"
    and lt: "i < nextId (loop st)" and nf: "i \<notin> set (fired (loop st))"
    and deb: "\<forall>t \<in> set (pending (loop st)). isDebounce t \<longrightarrow> tid t = i"
    and out: "outbox st = out"
    by (simp_all add: armed_def del: isDebounce.simps)
  define X where "X = st\<lparr>isProcessing := True, processTimeoutRef := Some (nextId (loop st)),
      loop := clearTimeout i (loop st)\<rparr>"
  have st': "st' = X\<lparr>loop := snd (setTimeout (SendForFactCheck s) 1000 (loop X))\<rparr>"
    using ref pos
    by (simp add: st'_def X_def processSentenceForFactCheck_def Let_def split_beta
        setTimeout_def clearTimeout_def)
  have noX: "\<forall>t \<in> set (pending (loop X)). \<not> isDebounce t"
    using deb by (auto simp: X_def clearTimeout_def simp del: isDebounce.simps)
  show "dead i st'"
    using lt nf by (auto simp: st' dead_def X_def setTimeout_def clearTimeout_def)
  have "filter isDebounce (pending (loop X)) = []"
    using noX by (simp add: filter_empty_conv del: isDebounce.simps)
  then show "debounceTimers st' =
      [\<lparr>tid = nextId (loop st), due = now (loop st) + 1000, callback = SendForFactCheck s\<rparr>]"
    by (simp add: st' debounceTimers_def setTimeout_def) (simp add: X_def clearTimeout_def)
  show "outbox st' = out"
    using out by (simp add: st' X_def)
  have "\<forall>t \<in> set (dueTimers 1000 (loop X)). \<not> isDebounce t"
    using noX by (simp add: set_dueTimers del: isDebounce.simps)
  then have "outbox (elapse 1000 X) = outbox X"
    by (simp add: elapse_def outbox_fold_fire_quiet del: isDebounce.simps)
  then have "outbox (elapse 1000 X) = out"
    using out by (simp add: X_def)
  then show "map statementOf (outbox (elapse 1000 st')) = map statementOf out @ [JStr s]"
    by (simp add: st' elapse_setTimeout_due statementOf_fire del: fire.simps)
qed

text \<open>
  C9: take any state \<open>s\<close> that the mounted view can reach, a call of
  \<^verbatim>\<open>processSentenceForFactCheck\<close> with the sentence \<open>a\<close>, then any events in which
  less than 1000 milliseconds pass and it is not called, then a call with \<open>b\<close>. Then the
  timer of \<open>a\<close> is no longer pending, and whatever happens later its callback never
  runs: \<open>a\<close> is never sent. The only pending debounce timer is that of \<open>b\<close>; nothing
  has been sent in between; and when the next 1000 milliseconds pass, exactly one
  statement is sent, \<open>b\<close>. In every reachable state at most one debounce timer is
  pending, and the passing of any amount of time sends at most one statement.
\<close>

theorem debounce_last_write_wins:
  fixes sid es a mid b
  defines "s \<equiv> run es (mounted sid)"
  defines "s3 \<equiv> processSentenceForFactCheck b (run mid (processSentenceForFactCheck a s))"
  assumes "quiet 1000 mid"
  shows "nextId (loop s) \<notin> tid ` set (pending (loop s3)) \<and>
         (\<forall>later. nextId (loop s) \<notin> set (fired (loop (run later s3)))) \<and>
         map callback (debounceTimers s3) = [SendForFactCheck b] \<and>
         outbox s3 = outbox s \<and>
         map statementOf (outbox (elapse 1000 s3)) = map statementOf (outbox s) @ [JStr b] \<and>
         length (debounceTimers s) \<le> 1 \<and>
         (\<forall>d. length (outbox (elapse d s)) \<le> length (outbox s) + 1)"
proof -
  have inv: "debounce_inv s"
    unfolding s_def by (rule debounce_inv_run) (rule debounce_inv_mounted)
  from armed_after_call [OF inv]
  have "armed (nextId (loop s)) 1000 (outbox s) (processSentenceForFactCheck a s)" .
  from armed_run [OF this assms(3)] obtain b' where
    ar: "armed (nextId (loop s)) b' (outbox s) (run mid (processSentenceForFactCheck a s))"
    by blast
  note sc = second_call [OF ar, of b, folded s3_def]
  from sc(1) have "nextId (loop s) \<notin> tid ` set (pending (loop s3))"
    by (simp add: dead_def)
  moreover have "nextId (loop s) \<notin> set (fired (loop (run later s3)))" for later
    using dead_run [OF sc(1), of later] by (simp add: dead_def)
  moreover from sc(2) have "map callback (debounceTimers s3) = [SendForFactCheck b]"
    by simp
  moreover note sc(3) sc(4) debounce_inv_at_most_one [OF inv]
  moreover have "length (outbox (elapse d s)) \<le> length (outbox s) + 1" for d
    using inv by (rule length_outbox_elapse)
  ultimately show ?thesis by blast
qed


theorem debounce_last_write_wins_witness:
  "quiet 1000 [WsOpen 0, Elapse 999] \<and>
   pending (loop (said [WsOpen 0, Elapse 999] (str ''The earth is flat'') (str ''The earth is round''))) =
     [\<lparr>tid = 2, due = 1999, callback = SendForFactCheck (str ''The earth is round'')\<rparr>] \<and>
   map statementOf
     (outbox (elapse 1000
        (said [WsOpen 0, Elapse 999] (str ''The earth is flat'') (str ''The earth is round'')))) =
     [JStr (str ''The earth is round'')] \<and>
   fired (loop (run [Elapse 5000]
     (said [WsOpen 0, Elapse 999] (str ''The earth is flat'') (str ''The earth is round'')))) = [2]"
proof -
  have q: "quiet 1000 [WsOpen 0, Elapse 999]" by simp
  from debounce_last_write_wins [OF q, of "[]" "[]" "str ''The earth is flat''" "str ''The earth is round''"]
  show ?thesis
    unfolding said_def
    by (simp add: run_def elapse_def dueTimers_def advance_def processSentenceForFactCheck_def
        setTimeout_def clearTimeout_def mounted_def connectWebSocket_def recognitionEffect_def
        TruthSeeker_init_def
        eventloop_init_def sendForFactCheck_def sendOverSocket_def postFactCheck_def
        debounceTimers_def str_def Let_def)
qed

section \<open>The fact-check response and its rendering\<close>

lemma verdictName_enum: "verdictName v \<in> set verdict_enum"
  by (cases v) (simp_all add: verdict_enum_def)

lemma isSource_sourceJson: "isSource (sourceJson s)"
  by (simp add: isSource_def sourceJson_def str_def)

lemma endpoint_fields:
  assumes "statement \<noteq> []"
  shows "field ''statement'' (fact_check_endpoint be statement) = JStr statement"
    and "field ''verdict'' (fact_check_endpoint be statement) =
           JStr (verdictName (verdict (assess be statement)))"
    and "field ''confidence_score'' (fact_check_endpoint be statement) =
           JNum (confidence_score (assess be statement))"
    and "field ''explanation'' (fact_check_endpoint be statement) =
           JStr (explanation (assess be statement))"
    and "field ''sources'' (fact_check_endpoint be statement) =
           JArr (map sourceJson (sources (assess be statement)))"
    and "fact_check_endpoint be statement \<noteq> JNull"
    and "fact_check_endpoint be statement \<noteq> JUndefined"
  using assms by (simp_all add: fact_check_endpoint_def Let_def str_def)

lemma endpoint_wellFormed:
  assumes "statement \<noteq> []"
  shows "wellFormedVerdictObject (fact_check_endpoint be statement)"
  by (simp add: wellFormedVerdictObject_def endpoint_fields [OF assms] verdictName_enum
      list_all_iff isSource_sourceJson)

lemma links_sourceJson:
  "links (map sourceJson ss) = Some (map (\<lambda>s. (JStr (url s), JStr (title s))) ss)"
  by (induction ss) (simp_all add: sourceJson_def str_def)

lemma sourcesBlock_sourceJson:
  "\<exists>block. sourcesBlock positive (JArr (map sourceJson ss)) = Some block \<and> validBlock block"
proof (cases "ss = []")
  case True
  then show ?thesis by simp
next
  case False
  have "take 2 (map sourceJson ss) = map sourceJson (take 2 ss)"
    by (simp add: take_map)
  with False have "sourcesBlock positive (JArr (map sourceJson ss)) =
      Some (Links (map (\<lambda>s. (JStr (url s), JStr (title s))) (take 2 ss)))"
    by (simp add: links_sourceJson)
  moreover have "validBlock (Links (map (\<lambda>s. (JStr (url s), JStr (title s))) (take 2 ss)))"
    by (simp add: list_all_iff)
  ultimately show ?thesis by blast
qed

lemma verdict_functions_TypeError:
  "\<not> isStr v \<Longrightarrow> getVerdictColor v = Inl TypeError"
  by (cases v) simp_all

lemma endpoint_rendered:
  assumes "statement \<noteq> []"
  shows "\<exists>shown. renderFactCheck positive (fact_check_endpoint be statement) = Some shown"
proof -
  obtain block where
    "sourcesBlock positive (JArr (map sourceJson (sources (assess be statement)))) = Some block"
    and "validBlock block"
    using sourcesBlock_sourceJson by blast
  then show ?thesis
    by (simp add: renderFactCheck_def endpoint_fields [OF assms])
qed

lemma render_reads:
  assumes "renderFactCheck positive check = Some shown"
  shows "verdictShown shown = field ''verdict'' check \<and>
         confidenceShown shown = field ''confidence_score'' check \<and>
         statementShown shown = field ''statement'' check \<and>
         explanationShown shown = field ''explanation'' check"
  using assms
  by (auto simp: renderFactCheck_def split: if_splits sum.splits option.splits)

lemma render_needs_verdict:
  assumes "\<not> isStr (field ''verdict'' check)"
  shows "renderFactCheck positive check = None"
  using assms by (simp add: renderFactCheck_def verdict_functions_TypeError)

lemma render_needs_values:
  assumes "\<not> convertible (field ''confidence_score'' check) \<or>
           \<not> validChild (field ''statement'' check) \<or>
           \<not> validChild (field ''explanation'' check)"
  shows "renderFactCheck positive check = None"
  using assms by (auto simp: renderFactCheck_def split: sum.splits option.splits)

lemma render_sources_guard:
  assumes "isStr (field ''verdict'' check)"
    and "convertible (field ''confidence_score'' check)"
    and "validChild (field ''statement'' check)" and "validChild (field ''explanation'' check)"
    and "field ''sources'' check = JUndefined \<or> field ''sources'' check = JNull \<or>
         field ''sources'' check = JArr []"
  shows "\<exists>shown. renderFactCheck positive check = Some shown \<and> sourcesShown shown = NoSources"
proof -
  from assms(1) obtain v where v: "field ''verdict'' check = JStr v"
    by (cases "field ''verdict'' check") simp_all
  then have "check \<noteq> JNull \<and> check \<noteq> JUndefined" by (cases check) auto
  moreover from assms(5) have "sourcesBlock positive (field ''sources'' check) = Some NoSources"
    by auto
  ultimately show ?thesis
    using v assms(2,3,4) by (simp add: renderFactCheck_def)
qed

text \<open>
  C3, as the code has it: for every statement that is not empty the endpoint (as the
  spec describes it) answers with a well-formed verdict object, with statement, verdict
  of the enum, confidence score, explanation and sources, and the solo view renders it.
  The view stores the body of an ok response as it is, and its rendering shows
  \<^verbatim>\<open>verdict\<close>, \<^verbatim>\<open>confidence_score\<close>, \<^verbatim>\<open>statement\<close> and \<^verbatim>\<open>explanation\<close> as they are read,
  without a guard: the rendering throws on a verdict that is not a string (the TypeError
  of the verdict functions), on a confidence score that does not convert to a number, and
  on a statement or an explanation that is not a valid child. \<^verbatim>\<open>sources\<close> is read behind
  the guard \<^verbatim>\<open>check.sources && check.sources.length > 0\<close>: a result without sources, or
  with an empty list of them, whose other fields render, is rendered without the block of
  sources.
\<close>

theorem fact_check_response_consumed:
  "(statement \<noteq> [] \<longrightarrow>
      wellFormedVerdictObject (fact_check_endpoint be statement) \<and>
      (\<exists>shown. renderFactCheck positive (fact_check_endpoint be statement) = Some shown)) \<and>
   factChecks (factCheckResponse (Resolved True result) st) = result # factChecks st \<and>
   (\<not> isStr (field ''verdict'' check) \<longrightarrow>
      getVerdictColor (field ''verdict'' check) = Inl TypeError \<and>
      renderFactCheck positive check = None) \<and>
   (\<not> convertible (field ''confidence_score'' check) \<or>
    \<not> validChild (field ''statement'' check) \<or>
    \<not> validChild (field ''explanation'' check) \<longrightarrow>
      renderFactCheck positive check = None) \<and>
   (\<forall>shown. renderFactCheck positive check = Some shown \<longrightarrow>
      verdictShown shown = field ''verdict'' check \<and>
      confidenceShown shown = field ''confidence_score'' check \<and>
      statementShown shown = field ''statement'' check \<and>
      explanationShown shown = field ''explanation'' check) \<and>
   (isStr (field ''verdict'' check) \<and> convertible (field ''confidence_score'' check) \<and>
    validChild (field ''statement'' check) \<and> validChild (field ''explanation'' check) \<and>
    (field ''sources'' check = JUndefined \<or> field ''sources'' check = JNull \<or>
     field ''sources'' check = JArr []) \<longrightarrow>
      (\<exists>shown. renderFactCheck positive check = Some shown \<and> sourcesShown shown = NoSources))"
  using endpoint_wellFormed [of statement be] endpoint_rendered [of statement positive be]
    render_reads [of positive check] render_needs_verdict [of check positive]
    render_needs_values [of check positive] render_sources_guard [of check positive]
    verdict_functions_TypeError [of "field ''verdict'' check"]
  by (simp add: factCheckResponse_def)

theorem fact_check_response_consumed_witness:
  "str ''The Earth is round'' \<noteq> [] \<and>
   wellFormedVerdictObject (fact_check_endpoint example_backend (str ''The Earth is round'')) \<and>
   renderFactCheck (\<lambda>v. False) (fact_check_endpoint example_backend (str ''The Earth is round'')) =
     Some \<lparr>colorShown = str ''text-green-400 bg-green-900/20 border-green-500/30'',
           iconShown = [10003],
           verdictShown = JStr (str ''True''),
           confidenceShown = JNum (9 / 10),
           statementShown = JStr (str ''The Earth is round''),
           explanationShown = JStr (str ''The Earth is an oblate spheroid.''),
           sourcesShown = Links [(JStr (str ''https://nasa.gov''), JStr (str ''NASA''))]\<rparr> \<and>
   \<not> convertible (field ''confidence_score'' unrated_result) \<and>
   renderFactCheck (\<lambda>v. False) unrated_result = None \<and>
   renderFactCheck (\<lambda>v. False) (JObj [(str ''statement'', JStr (str ''The Earth is round''))]) =
     None"
  using fact_check_response_consumed
      [where statement = "str ''The Earth is round''" and be = example_backend and
        positive = "\<lambda>v. False" and check = unrated_result]
  by (simp add: wellFormedVerdictObject_def isSource_def verdict_enum_def
      fact_check_endpoint_def assess_def example_backend_def sourceJson_def
      unrated_result_def renderFactCheck_def toLowerCase_def str_def)

text \<open>
  C3 as stated says that \<^verbatim>\<open>result.sources\<close> is read without any guard, so that a
  response has to contain it. A result that has no \<^verbatim>\<open>sources\<close> is rendered all the
  same, as a card without the block of sources.
\<close>

theorem sources_read_counterexample:
  "field ''sources'' unsourced_result = JUndefined \<and>
   renderFactCheck (\<lambda>v. False) unsourced_result =
     Some \<lparr>colorShown = str ''text-green-400 bg-green-900/20 border-green-500/30'',
           iconShown = [10003],
           verdictShown = JStr (str ''True''),
           confidenceShown = JNum (9 / 10),
           statementShown = JStr (str ''The Earth is round''),
           explanationShown = JStr (str ''The Earth is an oblate spheroid.''),
           sourcesShown = NoSources\<rparr>"
  by (simp add: unsourced_result_def renderFactCheck_def toLowerCase_def str_def)

end
